theory Spec2Isabelle
  imports Main "HOL-Library.Sublist"
begin

section \<open>Python values and string operations\<close>

text \<open>
  A cell of a pandas row is either missing (NaN) or a string. Strings are lists of
  bytes; the string operations below act on the ASCII range, which is where every
  keyword, status name and separator of the program lives. Bytes outside ASCII are
  left unchanged by \<open>lower\<close> and are never white space.
\<close>

datatype cell = Null | Str string

datatype py_error = KeyError | IndexError | ValueError | AttributeError | ZeroDivisionError

text \<open>\<^verbatim>\<open>str(x)\<close>: a string is itself, NaN prints as \<^verbatim>\<open>nan\<close>.\<close>

fun py_str :: "cell \<Rightarrow> string" where
  "py_str (Str s) = s"
| "py_str Null = ''nan''"

text \<open>\<^verbatim>\<open>pd.isnull(x)\<close>\<close>

fun isnull :: "cell \<Rightarrow> bool" where
  "isnull Null = True"
| "isnull (Str s) = False"

definition ascii_uppercase :: string where
  "ascii_uppercase = ''ABCDEFGHIJKLMNOPQRSTUVWXYZ''"

definition ascii_lowercase :: string where
  "ascii_lowercase = ''abcdefghijklmnopqrstuvwxyz''"

definition lower_char :: "char \<Rightarrow> char" where
  "lower_char c =
     (case map_of (zip ascii_uppercase ascii_lowercase) c of Some l \<Rightarrow> l | None \<Rightarrow> c)"

text \<open>\<^verbatim>\<open>s.lower()\<close>\<close>

definition lower :: "string \<Rightarrow> string" where
  "lower s = map lower_char s"

text \<open>
  White space as \<^verbatim>\<open>str.strip()\<close> sees it in the ASCII range: tab, line feed,
  vertical tab, form feed, carriage return, the four separators 28 to 31, and space.
\<close>

definition is_space :: "char \<Rightarrow> bool" where
  "is_space c =
     (let n = (of_char c :: nat) in (9 \<le> n \<and> n \<le> 13) \<or> (28 \<le> n \<and> n \<le> 32))"

text \<open>\<^verbatim>\<open>s.strip()\<close>\<close>

definition strip :: "string \<Rightarrow> string" where
  "strip s = rev (dropWhile is_space (rev (dropWhile is_space s)))"

text \<open>\<^verbatim>\<open>keyword in text\<close>: the keyword occurs as a contiguous substring.\<close>

fun contains :: "string \<Rightarrow> string \<Rightarrow> bool" where
  "contains kw [] = (kw = [])"
| "contains kw (c # cs) = (prefix kw (c # cs) \<or> contains kw cs)"

text \<open>
  \<^verbatim>\<open>s.split(sep)\<close> for a non-empty separator: the occurrences of \<open>sep\<close> are found
  from the left and do not overlap.
\<close>

function split_nonempty :: "string \<Rightarrow> string \<Rightarrow> string list" where
  "split_nonempty sep [] = [[]]"
| "split_nonempty sep (c # cs) =
     (if sep \<noteq> [] \<and> prefix sep (c # cs)
      then [] # split_nonempty sep (drop (length sep) (c # cs))
      else (case split_nonempty sep cs of
              p # ps \<Rightarrow> (c # p) # ps
            | [] \<Rightarrow> [[c]]))"
  by pat_completeness auto
termination
  by (relation "measure (\<lambda>(sep, s). length s)") auto

text \<open>An empty separator raises \<^verbatim>\<open>ValueError\<close>.\<close>

definition py_split :: "string \<Rightarrow> string \<Rightarrow> py_error + string list" where
  "py_split sep s = (if sep = [] then Inl ValueError else Inr (split_nonempty sep s))"

section \<open>Configuration (config.py)\<close>

definition DEFAULT_RISK_FLAG :: string where
  "DEFAULT_RISK_FLAG = ''Normal''"

definition DEFAULT_DOMAIN :: string where
  "DEFAULT_DOMAIN = ''Unclassified''"

definition DEFAULT_SUBDOMAIN :: string where
  "DEFAULT_SUBDOMAIN = ''Unclassified''"

text \<open>The dictionaries keep their insertion order, which the classifier iterates.\<close>

definition TRM_DOMAINS_SUBDOMAINS :: "(string \<times> string list) list" where
  "TRM_DOMAINS_SUBDOMAINS =
     [(''Data Management'', [''Database Platforms'', ''Data Processing'', ''Data Storage'']),
      (''Artificial Intelligence'', [''ML Frameworks'', ''NLP Tools'', ''Computer Vision'']),
      (''Security'', [''Security Tools'', ''Authentication'', ''Encryption'']),
      (''Network'', [''Networking Tools'', ''Load Balancers'', ''API Gateways'']),
      (''Development'', [''IDEs'', ''Version Control'', ''CI/CD'']),
      (''Unclassified'', [''Unclassified''])]"

definition CLASSIFICATION_KEYWORDS :: "(string \<times> string list) list" where
  "CLASSIFICATION_KEYWORDS =
     [(''Data Management'',
         [''database'', ''sql'', ''nosql'', ''data store'', ''postgresql'', ''mysql'',
          ''mongodb'', ''redis'']),
      (''Artificial Intelligence'',
         [''machine learning'', ''ai'', ''ml'', ''artificial intelligence'', ''deep learning'',
          ''tensorflow'', ''pytorch'']),
      (''Security'',
         [''security'', ''auth'', ''encryption'', ''firewall'', ''protection'',
          ''vulnerability'', ''antivirus'']),
      (''Network'',
         [''network'', ''protocol'', ''routing'', ''traffic'', ''proxy'', ''load balancer'',
          ''api gateway'']),
      (''Development'',
         [''ide'', ''git'', ''development'', ''programming'', ''code'', ''compiler'', ''build'',
          ''cicd''])]"

section \<open>Rule-based classification (classification.py)\<close>

text \<open>
  \<^verbatim>\<open>TRM_DOMAINS_SUBDOMAINS[domain][0]\<close>: a missing key raises \<^verbatim>\<open>KeyError\<close>, an
  empty list raises \<^verbatim>\<open>IndexError\<close>.
\<close>

definition first_subdomain :: "string \<Rightarrow> py_error + string" where
  "first_subdomain domain =
     (case map_of TRM_DOMAINS_SUBDOMAINS domain of
        None \<Rightarrow> Inl KeyError
      | Some subdomains \<Rightarrow>
          (case subdomains of [] \<Rightarrow> Inl IndexError | s # _ \<Rightarrow> Inr s))"

text \<open>The loop over \<^verbatim>\<open>CLASSIFICATION_KEYWORDS.items()\<close>, returning at the first match.\<close>

fun keyword_loop :: "(string \<times> string list) list \<Rightarrow> string \<Rightarrow> py_error + (string \<times> string)" where
  "keyword_loop [] desc_hint = Inr (DEFAULT_DOMAIN, DEFAULT_SUBDOMAIN)"
| "keyword_loop ((domain, keywords) # rest) desc_hint =
     (if list_ex (\<lambda>keyword. contains keyword desc_hint) keywords
      then (case first_subdomain domain of
              Inl e \<Rightarrow> Inl e
            | Inr s \<Rightarrow> Inr (domain, s))
      else keyword_loop rest desc_hint)"

definition rule_based_classify :: "cell \<Rightarrow> cell \<Rightarrow> py_error + (string \<times> string)" where
  "rule_based_classify description hint =
     (let desc_hint = lower (py_str description) @ '' '' @ lower (py_str hint)
      in keyword_loop CLASSIFICATION_KEYWORDS desc_hint)"

section \<open>Model-based classification (classification.py)\<close>

text \<open>
  \<^verbatim>\<open>config.OPENAI_API_KEY\<close> is what \<^verbatim>\<open>os.getenv\<close> returned: nothing, or a string.
  The test \<^verbatim>\<open>not config.OPENAI_API_KEY\<close> holds for nothing and for the empty string.
\<close>

definition key_configured :: "string option \<Rightarrow> bool" where
  "key_configured api_key = (case api_key of None \<Rightarrow> False | Some k \<Rightarrow> k \<noteq> [])"

text \<open>
  The text-completion service is outside the program. What one call does is a
  parameter of the model: it raises (with a message), or it yields
  \<^verbatim>\<open>response.choices[0].message.content\<close>, a string or nothing.
\<close>

datatype api_reply = Raises string | Content "string option"

text \<open>The notices shown with \<^verbatim>\<open>st.warning\<close>, with the failure they carry.\<close>

datatype failure = ServiceFailure string | Internal py_error

datatype notice = KeyNotConfigured | LLMApiError failure

text \<open>\<^verbatim>\<open>domain, subdomain = parts\<close>: any other length raises \<^verbatim>\<open>ValueError\<close>.\<close>

fun unpack_pair :: "string list \<Rightarrow> py_error + (string \<times> string)" where
  "unpack_pair [a, b] = Inr (a, b)"
| "unpack_pair parts = Inl ValueError"

text \<open>The validation of the stripped parts against the configured domains.\<close>

definition validate_pair :: "string \<Rightarrow> string \<Rightarrow> py_error + (string \<times> string)" where
  "validate_pair domain subdomain =
     (if (case map_of TRM_DOMAINS_SUBDOMAINS domain of
            Some subdomains \<Rightarrow> subdomain \<in> set subdomains
          | None \<Rightarrow> False)
      then Inr (domain, subdomain)
      else if map_of TRM_DOMAINS_SUBDOMAINS domain \<noteq> None
      then (case first_subdomain domain of
              Inl e \<Rightarrow> Inl e
            | Inr s \<Rightarrow> Inr (domain, s))
      else Inr (DEFAULT_DOMAIN, DEFAULT_SUBDOMAIN))"

text \<open>
  What the body of the outer \<^verbatim>\<open>try\<close> does with the service's text. The inner
  handler catches \<^verbatim>\<open>ValueError\<close> only; any other error leaves this function.
\<close>

definition parse_response :: "string \<Rightarrow> py_error + (string \<times> string)" where
  "parse_response classification =
     (if lower classification = ''unclassified''
      then Inr (DEFAULT_DOMAIN, DEFAULT_SUBDOMAIN)
      else (case (case py_split '', '' classification of
                    Inl e \<Rightarrow> Inl e
                  | Inr parts \<Rightarrow> unpack_pair parts) of
              Inl ValueError \<Rightarrow> Inr (DEFAULT_DOMAIN, DEFAULT_SUBDOMAIN)
            | Inl e \<Rightarrow> Inl e
            | Inr (domain, subdomain) \<Rightarrow>
                (case validate_pair (strip domain) (strip subdomain) of
                   Inl ValueError \<Rightarrow> Inr (DEFAULT_DOMAIN, DEFAULT_SUBDOMAIN)
                 | Inl e \<Rightarrow> Inl e
                 | Inr p \<Rightarrow> Inr p)))"

text \<open>
  \<open>llm_classify\<close> returns the notices it emitted and its result. The prompt built from
  the product name, the description and the hint is what the service receives; the
  reply is the parameter \<open>reply\<close>. Every error raised inside the outer \<^verbatim>\<open>try\<close> is
  caught there, reported as a notice, and answered with the rule-based result. Creating
  the client and formatting the prompt, which come before the \<^verbatim>\<open>try\<close>, do not
  raise.
\<close>

definition llm_classify ::
  "string option \<Rightarrow> api_reply \<Rightarrow> cell \<Rightarrow> cell \<Rightarrow> cell \<Rightarrow> notice list \<times> (py_error + (string \<times> string))" where
  "llm_classify api_key reply product_name description hint =
     (if \<not> key_configured api_key
      then ([KeyNotConfigured], rule_based_classify description hint)
      else (case reply of
              Raises e \<Rightarrow> ([LLMApiError (ServiceFailure e)], rule_based_classify description hint)
            | Content None \<Rightarrow>
                ([LLMApiError (Internal AttributeError)], rule_based_classify description hint)
            | Content (Some classification) \<Rightarrow>
                (case parse_response classification of
                   Inl e \<Rightarrow> ([LLMApiError (Internal e)], rule_based_classify description hint)
                 | Inr p \<Rightarrow> ([], Inr p))))"

section \<open>Risk assessment (risk_assessment.py)\<close>

text \<open>A row handed to \<open>flag_risk\<close> is a pandas Series: labels that are present map to a cell.\<close>

type_synonym series = "string \<rightharpoonup> cell"

text \<open>
  \<^verbatim>\<open>'Lifecycle Status' in row and row['Lifecycle Status'].lower() == status\<close>.
  NaN has no method \<^verbatim>\<open>lower\<close>.
\<close>

definition status_is :: "series \<Rightarrow> string \<Rightarrow> py_error + bool" where
  "status_is row status =
     (case row ''Lifecycle Status'' of
        None \<Rightarrow> Inr False
      | Some Null \<Rightarrow> Inl AttributeError
      | Some (Str s) \<Rightarrow> Inr (lower s = status))"

text \<open>\<^verbatim>\<open>'Vendor' in row and (pd.isnull(row['Vendor']) or row['Vendor'].strip() == '')\<close>\<close>

definition vendor_missing :: "series \<Rightarrow> bool" where
  "vendor_missing row =
     (case row ''Vendor'' of
        None \<Rightarrow> False
      | Some v \<Rightarrow> isnull v \<or> strip (py_str v) = [])"

text \<open>\<^verbatim>\<open>'TRM Domain' in row and row['TRM Domain'] == config.DEFAULT_DOMAIN\<close>\<close>

definition domain_unclassified :: "series \<Rightarrow> bool" where
  "domain_unclassified row =
     (case row ''TRM Domain'' of
        None \<Rightarrow> False
      | Some v \<Rightarrow> v = Str DEFAULT_DOMAIN)"

definition flag_risk :: "series \<Rightarrow> py_error + string" where
  "flag_risk row =
     (case status_is row ''deprecated'' of
        Inl e \<Rightarrow> Inl e
      | Inr deprecated \<Rightarrow>
          if deprecated then Inr ''High-Risk''
          else if vendor_missing row then Inr ''High-Risk''
          else if domain_unclassified row then Inr ''High-Risk''
          else (case status_is row ''beta'' of
                  Inl e \<Rightarrow> Inl e
                | Inr beta \<Rightarrow> if beta then Inr ''Medium-Risk'' else Inr DEFAULT_RISK_FLAG))"

section \<open>Data frames\<close>

text \<open>
  A data frame has its column labels and its rows; a row is labelled by its position
  (the default index). A cell the row has no entry for reads as NaN.
\<close>

record dataframe =
  columns :: "string list"
  rows :: "(string \<rightharpoonup> cell) list"

definition cell_at :: "(string \<rightharpoonup> cell) \<Rightarrow> string \<Rightarrow> cell" where
  "cell_at r c = (case r c of Some v \<Rightarrow> v | None \<Rightarrow> Null)"

text \<open>\<^verbatim>\<open>df[c]\<close> for a column that exists: the cells of the column, in row order.\<close>

definition column :: "dataframe \<Rightarrow> string \<Rightarrow> cell list" where
  "column df c = map (\<lambda>r. cell_at r c) (rows df)"

text \<open>\<^verbatim>\<open>df.iterrows()\<close>: each row as a Series over the frame's columns.\<close>

definition row_series :: "string list \<Rightarrow> (string \<rightharpoonup> cell) \<Rightarrow> series" where
  "row_series cols r = (\<lambda>c. if c \<in> set cols then Some (cell_at r c) else None)"

definition iterrows :: "dataframe \<Rightarrow> series list" where
  "iterrows df = map (row_series (columns df)) (rows df)"

text \<open>\<^verbatim>\<open>row[c]\<close> raises \<^verbatim>\<open>KeyError\<close> for a label the Series does not have.\<close>

definition getitem :: "series \<Rightarrow> string \<Rightarrow> py_error + cell" where
  "getitem row c = (case row c of None \<Rightarrow> Inl KeyError | Some v \<Rightarrow> Inr v)"

text \<open>
  \<^verbatim>\<open>df.at[idx, c] = v\<close>: a column that does not exist yet is added, NaN in every
  row, before the cell is written.
\<close>

definition at_set :: "dataframe \<Rightarrow> nat \<Rightarrow> string \<Rightarrow> cell \<Rightarrow> dataframe" where
  "at_set df idx c v =
     (let df1 = (if c \<in> set (columns df) then df
                 else df\<lparr>columns := columns df @ [c],
                         rows := map (\<lambda>r. r(c \<mapsto> Null)) (rows df)\<rparr>)
      in df1\<lparr>rows := (rows df1)[idx := ((rows df1) ! idx)(c \<mapsto> v)]\<rparr>)"

section \<open>Risk metrics (risk_assessment.py)\<close>

text \<open>
  \<^verbatim>\<open>Series.value_counts().to_dict()\<close>: every distinct value that is not NaN, with the
  number of cells holding it. The order of a dictionary's items is not observed by the
  program; here the values come in the order of their last occurrence.
\<close>

fun strings_of :: "cell list \<Rightarrow> string list" where
  "strings_of [] = []"
| "strings_of (Null # cs) = strings_of cs"
| "strings_of (Str s # cs) = s # strings_of cs"

definition value_counts :: "cell list \<Rightarrow> (string \<times> nat) list" where
  "value_counts cs = map (\<lambda>k. (k, count_list cs (Str k))) (remdups (strings_of cs))"

text \<open>
  Python's floating-point arithmetic is a parameter of the model: true division of two
  integers (the divisor is not zero), the product of a float and an integer, and
  \<^verbatim>\<open>round(x, ndigits)\<close>.
\<close>

record 'f float_ops =
  truediv :: "nat \<Rightarrow> nat \<Rightarrow> 'f"
  mul :: "'f \<Rightarrow> nat \<Rightarrow> 'f"
  round_n :: "'f \<Rightarrow> nat \<Rightarrow> 'f"

text \<open>
  \<^verbatim>\<open>{k: round(v/total*100, 1) for k, v in risk_counts.items()}\<close>: the division is
  evaluated once per item and raises \<^verbatim>\<open>ZeroDivisionError\<close> when the total is zero.
\<close>

fun percentages_of :: "'f float_ops \<Rightarrow> (string \<times> nat) list \<Rightarrow> nat \<Rightarrow> py_error + (string \<times> 'f) list" where
  "percentages_of ops [] total_count = Inr []"
| "percentages_of ops ((k, v) # items) total_count =
     (if total_count = 0 then Inl ZeroDivisionError
      else (case percentages_of ops items total_count of
              Inl e \<Rightarrow> Inl e
            | Inr ps \<Rightarrow> Inr ((k, round_n ops (mul ops (truediv ops v total_count) 100) 1) # ps)))"

record 'f metrics =
  counts :: "(string \<times> nat) list"
  percentages :: "(string \<times> 'f) list"
  deprecated_count :: nat
  missing_vendor_count :: nat
  unclassified_count :: nat
  total_count :: nat

definition generate_risk_metrics :: "'f float_ops \<Rightarrow> dataframe \<Rightarrow> py_error + 'f metrics" where
  "generate_risk_metrics ops df =
     (let risk_counts = (if ''Risk Flag'' \<in> set (columns df)
                         then value_counts (column df ''Risk Flag'') else []);
          total_count = length (rows df)
      in case percentages_of ops risk_counts total_count of
           Inl e \<Rightarrow> Inl e
         | Inr risk_percentages \<Rightarrow>
             Inr \<lparr>counts = risk_counts,
                  percentages = risk_percentages,
                  deprecated_count =
                    (if ''Lifecycle Status'' \<in> set (columns df)
                     then length (filter (\<lambda>v. v = Str ''Deprecated'') (column df ''Lifecycle Status''))
                     else 0),
                  missing_vendor_count =
                    (if ''Vendor'' \<in> set (columns df)
                     then length (filter (\<lambda>v. isnull v \<or> v = Str []) (column df ''Vendor''))
                     else 0),
                  unclassified_count =
                    (if ''TRM Domain'' \<in> set (columns df)
                     then length (filter (\<lambda>v. v = Str DEFAULT_DOMAIN) (column df ''TRM Domain''))
                     else 0),
                  total_count = total_count\<rparr>)"

section \<open>Running a classification over a frame (classification.py)\<close>

text \<open>
  Data frames are objects that the caller and \<open>run_classification\<close> may share, so they
  live in a store: a list of frames, a reference being a position in it.
  \<^verbatim>\<open>df.copy()\<close> allocates a new frame with the same contents.
\<close>

type_synonym heap = "dataframe list"

definition copy_df :: "heap \<Rightarrow> nat \<Rightarrow> heap \<times> nat" where
  "copy_df h df = (h @ [h ! df], length h)"

text \<open>The body of the loop up to the classification of one row.\<close>

definition classify_row ::
  "string option \<Rightarrow> api_reply \<Rightarrow> string \<Rightarrow> series \<Rightarrow> py_error + (string \<times> string)" where
  "classify_row api_key reply method row =
     (case getitem row ''Product Name'' of
        Inl e \<Rightarrow> Inl e
      | Inr product_name \<Rightarrow>
          (case getitem row ''Description'' of
             Inl e \<Rightarrow> Inl e
           | Inr description \<Rightarrow>
               (let hint = (case row ''Category Hint'' of Some v \<Rightarrow> v | None \<Rightarrow> Str [])
                in if method = ''rule-based''
                   then rule_based_classify description hint
                   else snd (llm_classify api_key reply product_name description hint))))"

text \<open>
  The loop over \<^verbatim>\<open>result_df.iterrows()\<close>. The rows it visits are those the frame
  had when the loop began; the writes go to the frame at \<open>result_df\<close> in the store.
  The service's reply for the row at position \<open>idx\<close> is \<open>service idx\<close>. The notices of
  \<open>llm_classify\<close> go to the screen and are not part of the frame.
\<close>

fun classify_rows ::
  "string option \<Rightarrow> (nat \<Rightarrow> api_reply) \<Rightarrow> string \<Rightarrow> nat \<Rightarrow> nat \<Rightarrow> series list \<Rightarrow> heap
     \<Rightarrow> heap \<times> py_error option" where
  "classify_rows api_key service method result_df idx [] h = (h, None)"
| "classify_rows api_key service method result_df idx (row # rest) h =
     (case classify_row api_key (service idx) method row of
        Inl e \<Rightarrow> (h, Some e)
      | Inr (domain, subdomain) \<Rightarrow>
          classify_rows api_key service method result_df (Suc idx) rest
            (h[result_df :=
                 at_set (at_set (h ! result_df) idx ''TRM Domain'' (Str domain))
                   idx ''TRM Subdomain'' (Str subdomain)]))"

definition run_classification ::
  "string option \<Rightarrow> (nat \<Rightarrow> api_reply) \<Rightarrow> heap \<Rightarrow> nat \<Rightarrow> string \<Rightarrow> heap \<times> (py_error + nat)" where
  "run_classification api_key service h df method =
     (case copy_df h df of
        (h1, result_df) \<Rightarrow>
          (case classify_rows api_key service method result_df 0 (iterrows (h1 ! result_df)) h1 of
             (h2, Some e) \<Rightarrow> (h2, Inl e)
           | (h2, None) \<Rightarrow> (h2, Inr result_df)))"

section \<open>The taxonomy's notion of a valid pair\<close>

text \<open>
  A pair is valid when the domain is a key of \<open>TRM_DOMAINS_SUBDOMAINS\<close> and the
  subdomain is in the list declared for it.
\<close>

definition is_valid :: "string \<Rightarrow> string \<Rightarrow> bool" where
  "is_valid domain subdomain =
     (case map_of TRM_DOMAINS_SUBDOMAINS domain of
        None \<Rightarrow> False
      | Some subdomains \<Rightarrow> subdomain \<in> set subdomains)"

section \<open>Floating-point expressions, unevaluated\<close>

text \<open>
  One instance of the arithmetic: each operation builds the expression it stands for,
  so that a computed percentage shows the formula that produced it.
\<close>

datatype fexpr = Div nat nat | Times fexpr nat | Round fexpr nat

definition symbolic_ops :: "fexpr float_ops" where
  "symbolic_ops = \<lparr>truediv = Div, mul = Times, round_n = Round\<rparr>"

section \<open>Frames that differ in the classification fields only\<close>

text \<open>
  The second frame has the rows of the first, in the same order, with every field other
  than \<open>TRM Domain\<close> and \<open>TRM Subdomain\<close> as it was, and the same other columns in the
  same order.
\<close>

definition only_classification_written :: "dataframe \<Rightarrow> dataframe \<Rightarrow> bool" where
  "only_classification_written df df' \<longleftrightarrow>
     length (rows df') = length (rows df) \<and>
     (\<forall>i < length (rows df). \<forall>c. c \<noteq> ''TRM Domain'' \<and> c \<noteq> ''TRM Subdomain'' \<longrightarrow>
        (rows df' ! i) c = (rows df ! i) c) \<and>
     filter (\<lambda>c. c \<noteq> ''TRM Domain'' \<and> c \<noteq> ''TRM Subdomain'') (columns df') =
     filter (\<lambda>c. c \<noteq> ''TRM Domain'' \<and> c \<noteq> ''TRM Subdomain'') (columns df)"

section \<open>The rule classifier as the specification words it\<close>

text \<open>
  The keywords of a domain (none when the domain has no entry), and the first domain,
  in the declared order of \<open>TRM_DOMAINS_SUBDOMAINS\<close>, one of whose keywords occurs in
  the text, paired with its first declared subdomain; the sentinel pair when there is
  none.
\<close>

definition keywords_of :: "string \<Rightarrow> string list" where
  "keywords_of domain =
     (case map_of CLASSIFICATION_KEYWORDS domain of Some kws \<Rightarrow> kws | None \<Rightarrow> [])"

definition first_match :: "string \<Rightarrow> string \<times> string" where
  "first_match desc_hint =
     (case find (\<lambda>(domain, subdomains). list_ex (\<lambda>kw. contains kw desc_hint) (keywords_of domain))
             TRM_DOMAINS_SUBDOMAINS of
        None \<Rightarrow> (''Unclassified'', ''Unclassified'')
      | Some (domain, subdomains) \<Rightarrow> (domain, hd subdomains))"

section \<open>Facts about the configuration\<close>

lemma lower_append: "lower (a @ b) = lower a @ lower b"
  by (simp add: lower_def)

lemma lower_space: "lower (CHR '' '' # s) = CHR '' '' # lower s"
  by (simp add: lower_def lower_char_def ascii_uppercase_def ascii_lowercase_def)

lemma keywords_of_domains:
  "map (\<lambda>(d, subs). (d, keywords_of d)) (butlast TRM_DOMAINS_SUBDOMAINS) = CLASSIFICATION_KEYWORDS"
  "keywords_of (fst (last TRM_DOMAINS_SUBDOMAINS)) = []"
  by (simp_all add: keywords_of_def CLASSIFICATION_KEYWORDS_def TRM_DOMAINS_SUBDOMAINS_def)

lemma domains_snoc:
  "TRM_DOMAINS_SUBDOMAINS = butlast TRM_DOMAINS_SUBDOMAINS @ [last TRM_DOMAINS_SUBDOMAINS]"
  by (simp add: TRM_DOMAINS_SUBDOMAINS_def)

lemma first_subdomain_butlast:
  "list_all (\<lambda>(d, subs). first_subdomain d = Inr (hd subs)) (butlast TRM_DOMAINS_SUBDOMAINS)"
  by (simp add: first_subdomain_def TRM_DOMAINS_SUBDOMAINS_def)

lemma valid_entries: "list_all (\<lambda>(d, subs). is_valid d (hd subs)) TRM_DOMAINS_SUBDOMAINS"
  by (simp add: is_valid_def TRM_DOMAINS_SUBDOMAINS_def)

lemma nonempty_entries: "list_all (\<lambda>(d, subs). subs \<noteq> []) TRM_DOMAINS_SUBDOMAINS"
  by (simp add: TRM_DOMAINS_SUBDOMAINS_def)

lemma is_valid_default: "is_valid DEFAULT_DOMAIN DEFAULT_SUBDOMAIN"
  by (simp add: is_valid_def DEFAULT_DOMAIN_def DEFAULT_SUBDOMAIN_def TRM_DOMAINS_SUBDOMAINS_def)

lemma known_domain_nonempty:
  assumes "map_of TRM_DOMAINS_SUBDOMAINS d = Some subs"
  shows "subs \<noteq> []"
proof -
  from assms have "(d, subs) \<in> set TRM_DOMAINS_SUBDOMAINS"
    by (rule map_of_SomeD)
  with nonempty_entries show ?thesis
    by (auto simp: list_all_iff)
qed

lemma first_subdomain_known:
  assumes "map_of TRM_DOMAINS_SUBDOMAINS d = Some subs"
  shows "first_subdomain d = Inr (hd subs)"
  using assms known_domain_nonempty [OF assms]
  by (cases subs) (simp_all add: first_subdomain_def)

section \<open>The keyword loop finds the first matching domain\<close>

lemma keyword_loop_find:
  assumes "list_all (\<lambda>(d, subs). first_subdomain d = Inr (hd subs)) ds"
  shows "keyword_loop (map (\<lambda>(d, subs). (d, keywords_of d)) ds) desc_hint =
           Inr (case find (\<lambda>(d, subs). list_ex (\<lambda>kw. contains kw desc_hint) (keywords_of d)) ds of
                  None \<Rightarrow> (DEFAULT_DOMAIN, DEFAULT_SUBDOMAIN)
                | Some (d, subs) \<Rightarrow> (d, hd subs))"
  using assms by (induction ds) (auto split: prod.splits)

lemma find_snoc:
  "find P (xs @ [x]) =
     (case find P xs of Some y \<Rightarrow> Some y | None \<Rightarrow> if P x then Some x else None)"
  by (induction xs) auto

lemma keyword_loop_first_match:
  "keyword_loop CLASSIFICATION_KEYWORDS desc_hint = Inr (first_match desc_hint)"
proof -
  let ?P = "\<lambda>(d, subs). list_ex (\<lambda>kw. contains kw desc_hint) (keywords_of d)"
  have "\<not> ?P (last TRM_DOMAINS_SUBDOMAINS)"
    using keywords_of_domains(2) by (simp add: case_prod_beta)
  then have "find ?P TRM_DOMAINS_SUBDOMAINS = find ?P (butlast TRM_DOMAINS_SUBDOMAINS)"
    by (subst domains_snoc, subst find_snoc) (simp split: option.splits)
  moreover have "keyword_loop CLASSIFICATION_KEYWORDS desc_hint =
      Inr (case find ?P (butlast TRM_DOMAINS_SUBDOMAINS) of
             None \<Rightarrow> (DEFAULT_DOMAIN, DEFAULT_SUBDOMAIN)
           | Some (d, subs) \<Rightarrow> (d, hd subs))"
    using keyword_loop_find [OF first_subdomain_butlast, of desc_hint]
    by (simp only: keywords_of_domains(1))
  ultimately show ?thesis
    unfolding first_match_def DEFAULT_DOMAIN_def DEFAULT_SUBDOMAIN_def by simp
qed

lemma rule_based_classify_eq:
  "rule_based_classify description hint =
     Inr (first_match (lower (py_str description) @ '' '' @ lower (py_str hint)))"
  by (simp add: rule_based_classify_def keyword_loop_first_match)

lemma first_match_valid: "is_valid (fst (first_match desc_hint)) (snd (first_match desc_hint))"
proof (cases "find (\<lambda>(d, subs). list_ex (\<lambda>kw. contains kw desc_hint) (keywords_of d))
                TRM_DOMAINS_SUBDOMAINS")
  case None
  then show ?thesis
    by (simp add: first_match_def) (simp add: is_valid_def TRM_DOMAINS_SUBDOMAINS_def)
next
  case (Some p)
  then have "p \<in> set TRM_DOMAINS_SUBDOMAINS"
    by (auto simp: find_Some_iff intro: nth_mem)
  with valid_entries have "is_valid (fst p) (hd (snd p))"
    by (auto simp: list_all_iff)
  with Some show ?thesis
    by (simp add: first_match_def case_prod_beta)
qed

section \<open>Validation of the service's text\<close>

lemma validate_pair_cases:
  "validate_pair d s =
     (case map_of TRM_DOMAINS_SUBDOMAINS d of
        None \<Rightarrow> Inr (DEFAULT_DOMAIN, DEFAULT_SUBDOMAIN)
      | Some subs \<Rightarrow> if s \<in> set subs then Inr (d, s) else Inr (d, hd subs))"
  by (auto simp: validate_pair_def first_subdomain_known split: option.splits)

lemma validate_pair_valid: "\<exists>d' s'. validate_pair d s = Inr (d', s') \<and> is_valid d' s'"
proof (cases "map_of TRM_DOMAINS_SUBDOMAINS d")
  case None
  then show ?thesis
    using is_valid_default by (simp add: validate_pair_cases)
next
  case (Some subs)
  then have "hd subs \<in> set subs"
    using known_domain_nonempty by simp
  with Some show ?thesis
    by (simp add: validate_pair_cases is_valid_def)
qed

lemma unpack_pair_cases:
  "unpack_pair parts = Inl ValueError \<or>
   (\<exists>a b. parts = [a, b] \<and> unpack_pair parts = Inr (a, b))"
  by (cases parts rule: unpack_pair.cases) simp_all

lemma parse_response_valid: "\<exists>d s. parse_response c = Inr (d, s) \<and> is_valid d s"
proof (cases "lower c = ''unclassified''")
  case True
  then show ?thesis
    using is_valid_default by (simp add: parse_response_def)
next
  case False
  have split: "py_split '', '' c = Inr (split_nonempty '', '' c)"
    by (simp add: py_split_def)
  from unpack_pair_cases [of "split_nonempty '', '' c"] show ?thesis
  proof
    assume "unpack_pair (split_nonempty '', '' c) = Inl ValueError"
    with False split show ?thesis
      using is_valid_default by (simp add: parse_response_def)
  next
    assume "\<exists>a b. split_nonempty '', '' c = [a, b] \<and>
              unpack_pair (split_nonempty '', '' c) = Inr (a, b)"
    then obtain a b where ab: "unpack_pair (split_nonempty '', '' c) = Inr (a, b)"
      by blast
    from validate_pair_valid [of "strip a" "strip b"]
    obtain d s where "validate_pair (strip a) (strip b) = Inr (d, s)" "is_valid d s"
      by blast
    with False split ab show ?thesis
      by (simp add: parse_response_def)
  qed
qed

lemma rule_based_classify_valid:
  "\<exists>d s. rule_based_classify description hint = Inr (d, s) \<and> is_valid d s"
proof -
  let ?m = "first_match (lower (py_str description) @ '' '' @ lower (py_str hint))"
  have "rule_based_classify description hint = Inr (fst ?m, snd ?m)"
    by (simp add: rule_based_classify_eq)
  then show ?thesis
    using first_match_valid by blast
qed

lemma llm_classify_valid:
  "\<exists>d s. snd (llm_classify api_key reply product_name description hint) = Inr (d, s) \<and>
         is_valid d s"
proof (cases "key_configured api_key")
  case False
  with rule_based_classify_valid [of description hint] show ?thesis
    by (simp add: llm_classify_def)
next
  case True
  show ?thesis
  proof (cases reply)
    case (Raises e)
    with True rule_based_classify_valid [of description hint] show ?thesis
      by (simp add: llm_classify_def)
  next
    case (Content c)
    show ?thesis
    proof (cases c)
      case None
      with True Content rule_based_classify_valid [of description hint] show ?thesis
        by (simp add: llm_classify_def)
    next
      case (Some r)
      from parse_response_valid [of r]
      obtain d s where "parse_response r = Inr (d, s)" "is_valid d s"
        by blast
      with True Content Some show ?thesis
        by (simp add: llm_classify_def)
    qed
  qed
qed

section \<open>Facts about splitting, stripping and lower-casing\<close>

lemma split_nonempty_not_Nil: "split_nonempty sep s \<noteq> []"
  by (induction sep s rule: split_nonempty.induct) (auto split: list.splits)

lemma split_nonempty_single: "split_nonempty sep s = [b] \<Longrightarrow> s = b"
  by (induction sep s arbitrary: b rule: split_nonempty.induct)
     (auto simp: split_nonempty_not_Nil split: if_splits list.splits)

lemma prefix_take_drop: "prefix sep s \<Longrightarrow> s = sep @ drop (length sep) s"
  by (auto simp: prefix_def)

lemma split_nonempty_pair:
  "split_nonempty sep s = [a, b] \<Longrightarrow> s = a @ sep @ b"
proof (induction sep s arbitrary: a rule: split_nonempty.induct)
  case (1 sep)
  then show ?case by simp
next
  case (2 sep c cs)
  show ?case
  proof (cases "sep \<noteq> [] \<and> prefix sep (c # cs)")
    case True
    with "2.prems" have a: "a = []" and "split_nonempty sep (drop (length sep) (c # cs)) = [b]"
      by simp_all
    then have "drop (length sep) (c # cs) = b"
      by (simp add: split_nonempty_single)
    with True a show ?thesis
      using prefix_take_drop [of sep "c # cs"] by simp
  next
    case False
    with "2.prems" obtain p where "split_nonempty sep cs = [p, b]" "a = c # p"
      by (auto split: list.splits)
    with False "2.IH"(2) show ?thesis
      by simp
  qed
qed

lemma split_nonempty_absent:
  "sep \<noteq> [] \<Longrightarrow> hd sep \<notin> set s \<Longrightarrow> split_nonempty sep s = [s]"
proof (induction sep s rule: split_nonempty.induct)
  case (1 sep)
  then show ?case by simp
next
  case (2 sep c cs)
  then have "\<not> prefix sep (c # cs)"
    by (cases sep) auto
  with 2 show ?case by simp
qed

lemma lower_char_comma: "lower_char (CHR '','') = CHR '',''"
  by (simp add: lower_char_def ascii_uppercase_def ascii_lowercase_def)

lemma comma_lower: "CHR '','' \<in> set s \<Longrightarrow> lower s \<noteq> ''unclassified''"
proof
  assume "CHR '','' \<in> set s" and eq: "lower s = ''unclassified''"
  then have "lower_char (CHR '','') \<in> lower_char ` set s"
    by (rule_tac imageI)
  then have "CHR '','' \<in> set (lower s)"
    by (simp add: lower_def lower_char_comma)
  with eq show False
    by simp
qed

lemma set_dropWhile_keep: "x \<in> set xs \<Longrightarrow> \<not> P x \<Longrightarrow> x \<in> set (dropWhile P xs)"
  by (induction xs) auto

lemma strip_keeps: "x \<in> set s \<Longrightarrow> \<not> is_space x \<Longrightarrow> x \<in> set (strip s)"
  by (simp add: strip_def set_dropWhile_keep)

lemma comma_not_space: "\<not> is_space (CHR '','')"
  by (simp add: is_space_def)

lemma py_split_comma: "py_split '', '' s = Inr (split_nonempty '', '' s)"
  by (simp add: py_split_def)

section \<open>Claims about the classifiers\<close>

text \<open>
  C2. Whatever the description, the hint, the configured key and the service's reply,
  \<open>rule_based_classify\<close> and \<open>llm_classify\<close> return a pair (they do not fail), and the
  pair is valid for the taxonomy: its domain is a key of \<open>TRM_DOMAINS_SUBDOMAINS\<close> and
  its subdomain is in that domain's list.
\<close>

theorem classify_valid:
  "(\<exists>d s. rule_based_classify description hint = Inr (d, s) \<and> is_valid d s) \<and>
   (\<exists>d s. snd (llm_classify api_key reply product_name description hint) = Inr (d, s) \<and>
           is_valid d s)"
  using rule_based_classify_valid llm_classify_valid by blast

text \<open>
  C3. The text that \<open>rule_based_classify\<close> searches is the lower-cased description, one
  space, and the lower-cased hint. The result is the first domain, in the declared
  order of the taxonomy, one of whose keywords occurs in that text, with that domain's
  first declared subdomain, and the sentinel pair when no keyword occurs. The function
  returns for every pair of strings, the empty ones included.
\<close>

theorem rule_based_first_match:
  "rule_based_classify (Str description) (Str hint) =
     Inr (first_match (lower (description @ '' '' @ hint)))"
  by (simp add: rule_based_classify_eq lower_append lower_space)

text \<open>
  The description \<open>a\<close> with the hint \<open>i\<close>: their plain concatenation contains the
  keyword \<open>ai\<close>, the text the code searches does not.
\<close>

theorem rule_based_concatenation_counterexample:
  "rule_based_classify (Str ''a'') (Str ''i'') = Inr (''Unclassified'', ''Unclassified'') \<and>
   first_match (lower (''a'' @ ''i'')) = (''Artificial Intelligence'', ''ML Frameworks'')"
  by (simp add: rule_based_classify_eq first_match_def keywords_of_def lower_def lower_char_def
        ascii_uppercase_def ascii_lowercase_def CLASSIFICATION_KEYWORDS_def
        TRM_DOMAINS_SUBDOMAINS_def)

text \<open>
  C4. When no key is configured, or when the call to the service raises, \<open>llm_classify\<close>
  returns what \<open>rule_based_classify\<close> returns for the same description and hint; that
  result is a pair, not an error, and exactly one notice is emitted.
\<close>

theorem llm_fallback:
  assumes "\<not> key_configured api_key \<or> (\<exists>e. reply = Raises e)"
  shows "snd (llm_classify api_key reply product_name description hint) =
           rule_based_classify description hint \<and>
         (\<exists>p. snd (llm_classify api_key reply product_name description hint) = Inr p) \<and>
         (\<exists>n. fst (llm_classify api_key reply product_name description hint) = [n])"
proof -
  have "\<exists>p. rule_based_classify description hint = Inr p"
    by (simp add: rule_based_classify_eq)
  with assms show ?thesis
    by (auto simp: llm_classify_def)
qed

theorem llm_fallback_witness:
  "key_configured (Some ''sk-1'') \<and>
   snd (llm_classify (Some ''sk-1'') (Raises ''timeout'')
          (Str ''Redis'') (Str ''In-memory data store'') (Str ''cache'')) =
     rule_based_classify (Str ''In-memory data store'') (Str ''cache'') \<and>
   fst (llm_classify (Some ''sk-1'') (Raises ''timeout'')
          (Str ''Redis'') (Str ''In-memory data store'') (Str ''cache'')) =
     [LLMApiError (ServiceFailure ''timeout'')] \<and>
   \<not> key_configured None \<and>
   snd (llm_classify None (Content (Some ''Security, Encryption''))
          (Str ''Redis'') (Str ''In-memory data store'') (Str ''cache'')) =
     rule_based_classify (Str ''In-memory data store'') (Str ''cache'') \<and>
   fst (llm_classify None (Content (Some ''Security, Encryption''))
          (Str ''Redis'') (Str ''In-memory data store'') (Str ''cache'')) =
     [KeyNotConfigured]"
proof -
  have k: "key_configured (Some ''sk-1'')" and n: "\<not> key_configured None"
    by (simp_all add: key_configured_def)
  have r: "\<exists>e. Raises ''timeout'' = Raises e"
    by simp
  from llm_fallback [OF disjI2, OF r, of "Some ''sk-1''" "Str ''Redis''"
      "Str ''In-memory data store''" "Str ''cache''"]
    llm_fallback [OF disjI1, OF n, of "Content (Some ''Security, Encryption'')" "Str ''Redis''"
      "Str ''In-memory data store''" "Str ''cache''"]
  show ?thesis
    using k n by (simp add: llm_classify_def)
qed

text \<open>
  C5. With a key configured and a reply whose split on \<open>, \<close> has exactly two parts,
  the first of which is, once stripped, a domain of the taxonomy, and the second of
  which is, once stripped, not one of that domain's subdomains: \<open>llm_classify\<close> returns
  that domain with the domain's first declared subdomain, and emits no notice.
\<close>

theorem subdomain_repair:
  assumes "key_configured api_key"
    and "reply = Content (Some response)"
    and "py_split '', '' response = Inr [a, b]"
    and "map_of TRM_DOMAINS_SUBDOMAINS (strip a) = Some subdomains"
    and "strip b \<notin> set subdomains"
  shows "llm_classify api_key reply product_name description hint =
           ([], Inr (strip a, hd subdomains))"
proof -
  from assms(3) have parts: "split_nonempty '', '' response = [a, b]"
    by (simp add: py_split_def)
  then have "response = a @ '', '' @ b"
    by (rule split_nonempty_pair)
  then have "CHR '','' \<in> set response"
    by simp
  then have "lower response \<noteq> ''unclassified''"
    by (rule comma_lower)
  moreover have "validate_pair (strip a) (strip b) = Inr (strip a, hd subdomains)"
    using assms(4,5) by (simp add: validate_pair_cases)
  ultimately have "parse_response response = Inr (strip a, hd subdomains)"
    using assms(3) by (simp add: parse_response_def)
  with assms(1,2) show ?thesis
    by (simp add: llm_classify_def)
qed

theorem subdomain_repair_witness:
  "key_configured (Some ''sk-1'') \<and>
   py_split '', '' ''Security, Firewalling'' = Inr [''Security'', ''Firewalling''] \<and>
   map_of TRM_DOMAINS_SUBDOMAINS (strip ''Security'') =
     Some [''Security Tools'', ''Authentication'', ''Encryption''] \<and>
   strip ''Firewalling'' \<notin> set [''Security Tools'', ''Authentication'', ''Encryption''] \<and>
   llm_classify (Some ''sk-1'') (Content (Some ''Security, Firewalling''))
       (Str ''pfSense'') (Str ''packet filter'') (Str []) =
     ([], Inr (''Security'', ''Security Tools''))"
proof -
  have k: "key_configured (Some ''sk-1'')"
    by (simp add: key_configured_def)
  have s: "py_split '', '' ''Security, Firewalling'' = Inr [''Security'', ''Firewalling'']"
    by (simp add: py_split_def)
  have sa: "strip ''Security'' = ''Security''" and sb: "strip ''Firewalling'' = ''Firewalling''"
    by (simp_all add: strip_def is_space_def)
  have m: "map_of TRM_DOMAINS_SUBDOMAINS (strip ''Security'') =
      Some [''Security Tools'', ''Authentication'', ''Encryption'']"
    by (simp add: sa TRM_DOMAINS_SUBDOMAINS_def)
  have n: "strip ''Firewalling'' \<notin> set [''Security Tools'', ''Authentication'', ''Encryption'']"
    by (simp add: sb)
  from subdomain_repair [OF k refl s m n, of "Str ''pfSense''" "Str ''packet filter''" "Str []"]
  show ?thesis
    using k s m n by (simp add: sa)
qed

text \<open>
  C6. With a key configured and a reply that the service returned as text:
  if the stripped text equals \<open>unclassified\<close> up to case, or the split on \<open>, \<close> does
  not have exactly two parts, or it has and the stripped first part is not a domain of
  the taxonomy, then \<open>llm_classify\<close> returns the sentinel pair, as a result and without
  a notice.
\<close>

theorem shape_violation_sentinel:
  assumes "key_configured api_key"
    and "reply = Content (Some response)"
    and "lower (strip response) = ''unclassified'' \<or>
         (\<forall>a b. py_split '', '' response \<noteq> Inr [a, b]) \<or>
         (\<exists>a b. py_split '', '' response = Inr [a, b] \<and>
                 map_of TRM_DOMAINS_SUBDOMAINS (strip a) = None)"
  shows "llm_classify api_key reply product_name description hint =
           ([], Inr (''Unclassified'', ''Unclassified''))"
proof -
  have "parse_response response = Inr (DEFAULT_DOMAIN, DEFAULT_SUBDOMAIN)"
  proof (cases "lower response = ''unclassified''")
    case True
    then show ?thesis by (simp add: parse_response_def)
  next
    case False
    from assms(3) consider
      (token) "lower (strip response) = ''unclassified''"
      | (count) "\<forall>a b. py_split '', '' response \<noteq> Inr [a, b]"
      | (unknown) "\<exists>a b. py_split '', '' response = Inr [a, b] \<and>
                         map_of TRM_DOMAINS_SUBDOMAINS (strip a) = None"
      by blast
    then show ?thesis
    proof cases
      case token
      have "CHR '','' \<notin> set response"
      proof
        assume "CHR '','' \<in> set response"
        then have "CHR '','' \<in> set (strip response)"
          using comma_not_space by (rule strip_keeps)
        then show False
          using comma_lower token by blast
      qed
      then have "split_nonempty '', '' response = [response]"
        by (simp add: split_nonempty_absent)
      with False show ?thesis
        by (simp add: parse_response_def py_split_def)
    next
      case count
      then have "unpack_pair (split_nonempty '', '' response) = Inl ValueError"
        using unpack_pair_cases [of "split_nonempty '', '' response"]
        by (auto simp: py_split_def)
      with False show ?thesis
        by (simp add: parse_response_def py_split_def)
    next
      case unknown
      then obtain a b where "py_split '', '' response = Inr [a, b]"
        and "map_of TRM_DOMAINS_SUBDOMAINS (strip a) = None"
        by blast
      with False show ?thesis
        by (simp add: parse_response_def validate_pair_cases)
    qed
  qed
  with assms(1,2) show ?thesis
    by (simp add: llm_classify_def DEFAULT_DOMAIN_def DEFAULT_SUBDOMAIN_def)
qed

theorem shape_violation_sentinel_witness:
  "key_configured (Some ''sk-1'') \<and>
   lower (strip '' Unclassified  '') = ''unclassified'' \<and>
   llm_classify (Some ''sk-1'') (Content (Some '' Unclassified  ''))
       (Str ''Abacus'') (Str ''a simple calculator'') (Str []) =
     ([], Inr (''Unclassified'', ''Unclassified'')) \<and>
   (\<forall>a b. py_split '', '' ''Security, Encryption, Authentication'' \<noteq> Inr [a, b]) \<and>
   llm_classify (Some ''sk-1'') (Content (Some ''Security, Encryption, Authentication''))
       (Str ''Abacus'') (Str ''a simple calculator'') (Str []) =
     ([], Inr (''Unclassified'', ''Unclassified'')) \<and>
   py_split '', '' ''Storage, Disks'' = Inr [''Storage'', ''Disks''] \<and>
   map_of TRM_DOMAINS_SUBDOMAINS (strip ''Storage'') = None \<and>
   llm_classify (Some ''sk-1'') (Content (Some ''Storage, Disks''))
       (Str ''Abacus'') (Str ''a simple calculator'') (Str []) =
     ([], Inr (''Unclassified'', ''Unclassified''))"
proof -
  have k: "key_configured (Some ''sk-1'')"
    by (simp add: key_configured_def)
  have t: "lower (strip '' Unclassified  '') = ''unclassified''"
    by (simp add: strip_def is_space_def lower_def lower_char_def ascii_uppercase_def
          ascii_lowercase_def)
  have c: "\<forall>a b. py_split '', '' ''Security, Encryption, Authentication'' \<noteq> Inr [a, b]"
    by (simp add: py_split_def)
  have s: "py_split '', '' ''Storage, Disks'' = Inr [''Storage'', ''Disks'']"
    by (simp add: py_split_def)
  have u: "map_of TRM_DOMAINS_SUBDOMAINS (strip ''Storage'') = None"
    by (simp add: strip_def is_space_def TRM_DOMAINS_SUBDOMAINS_def)
  from s u have su: "\<exists>a b. py_split '', '' ''Storage, Disks'' = Inr [a, b] \<and>
      map_of TRM_DOMAINS_SUBDOMAINS (strip a) = None"
    by blast
  show ?thesis
    using k t c s u
      shape_violation_sentinel [OF k refl disjI1, OF t,
        of "Str ''Abacus''" "Str ''a simple calculator''" "Str []"]
      shape_violation_sentinel [OF k refl disjI2, OF disjI1, OF c,
        of "Str ''Abacus''" "Str ''a simple calculator''" "Str []"]
      shape_violation_sentinel [OF k refl disjI2, OF disjI2, OF su,
        of "Str ''Abacus''" "Str ''a simple calculator''" "Str []"]
    by simp
qed

section \<open>Claims about the risk flag\<close>

lemma status_is_Str:
  "row ''Lifecycle Status'' \<noteq> Some Null \<Longrightarrow>
   status_is row status =
     Inr (\<exists>s. row ''Lifecycle Status'' = Some (Str s) \<and> lower s = status)"
  by (auto simp: status_is_def split: option.splits cell.splits)

lemma vendor_missing_iff:
  "vendor_missing row \<longleftrightarrow>
     (\<exists>v. row ''Vendor'' = Some v \<and> (v = Null \<or> (\<exists>s. v = Str s \<and> strip s = [])))"
proof (cases "row ''Vendor''")
  case None
  then show ?thesis by (simp add: vendor_missing_def)
next
  case (Some v)
  then show ?thesis by (cases v) (simp_all add: vendor_missing_def)
qed

lemma domain_unclassified_iff:
  "domain_unclassified row \<longleftrightarrow> row ''TRM Domain'' = Some (Str ''Unclassified'')"
  by (simp add: domain_unclassified_def DEFAULT_DOMAIN_def split: option.splits)

text \<open>
  C1. For every record whose lifecycle status, when the field is present, is a string,
  \<open>flag_risk\<close> returns a risk level, the first of these that applies: High-Risk when
  the status is \<open>deprecated\<close> up to case; else High-Risk when the vendor field is
  present and is null or blank once stripped; else High-Risk when the domain is the
  sentinel \<open>Unclassified\<close>; else Medium-Risk when the status is \<open>beta\<close> up to case;
  else Normal. A record with no vendor field at all does not meet the second rule.
\<close>

theorem flag_risk_precedence:
  assumes "row ''Lifecycle Status'' \<noteq> Some Null"
  shows "flag_risk row =
     Inr (if (\<exists>s. row ''Lifecycle Status'' = Some (Str s) \<and> lower s = ''deprecated'')
          then ''High-Risk''
          else if (\<exists>v. row ''Vendor'' = Some v \<and> (v = Null \<or> (\<exists>s. v = Str s \<and> strip s = [])))
          then ''High-Risk''
          else if row ''TRM Domain'' = Some (Str ''Unclassified'')
          then ''High-Risk''
          else if (\<exists>s. row ''Lifecycle Status'' = Some (Str s) \<and> lower s = ''beta'')
          then ''Medium-Risk''
          else ''Normal'')"
proof -
  from assms have st: "\<And>status. status_is row status =
      Inr (\<exists>s. row ''Lifecycle Status'' = Some (Str s) \<and> lower s = status)"
    by (rule status_is_Str)
  show ?thesis
    unfolding flag_risk_def st vendor_missing_iff domain_unclassified_iff DEFAULT_RISK_FLAG_def
    by (simp only: sum.case if_True if_False split: if_splits) blast
qed

text \<open>The record with status Deprecated and a null vendor is High-Risk.\<close>

theorem flag_risk_precedence_witness:
  "[''Lifecycle Status'' \<mapsto> Str ''Deprecated'', ''Vendor'' \<mapsto> Null] ''Lifecycle Status'' \<noteq> Some Null \<and>
   flag_risk [''Lifecycle Status'' \<mapsto> Str ''Deprecated'', ''Vendor'' \<mapsto> Null] = Inr ''High-Risk''"
  using flag_risk_precedence [of "[''Lifecycle Status'' \<mapsto> Str ''Deprecated'', ''Vendor'' \<mapsto> Null]"]
  by (simp add: lower_def lower_char_def ascii_uppercase_def ascii_lowercase_def)

text \<open>
  An active record of the domain Network that has no vendor field: the second rule does
  not apply to it, and it is Normal.
\<close>

theorem flag_risk_absent_vendor_counterexample:
  "[''Lifecycle Status'' \<mapsto> Str ''Active'', ''TRM Domain'' \<mapsto> Str ''Network''] ''Vendor'' = None \<and>
   flag_risk [''Lifecycle Status'' \<mapsto> Str ''Active'', ''TRM Domain'' \<mapsto> Str ''Network''] =
     Inr ''Normal''"
  by (simp add: flag_risk_def status_is_def vendor_missing_def domain_unclassified_def
        DEFAULT_DOMAIN_def DEFAULT_RISK_FLAG_def lower_def lower_char_def ascii_uppercase_def
        ascii_lowercase_def)

text \<open>
  C8. For every record whose domain field is absent or null, whose lifecycle status is
  absent or a string other than \<open>deprecated\<close> up to case, and whose vendor is a string
  that is not blank: \<open>flag_risk\<close> returns Medium-Risk when the status is \<open>beta\<close> up to
  case and Normal otherwise. It never returns High-Risk for such a record.
\<close>

theorem flag_risk_never_classified:
  assumes "row ''TRM Domain'' = None \<or> row ''TRM Domain'' = Some Null"
    and "row ''Lifecycle Status'' = None \<or>
         (\<exists>s. row ''Lifecycle Status'' = Some (Str s) \<and> lower s \<noteq> ''deprecated'')"
    and "\<exists>v. row ''Vendor'' = Some (Str v) \<and> strip v \<noteq> []"
  shows "flag_risk row =
     Inr (if (\<exists>s. row ''Lifecycle Status'' = Some (Str s) \<and> lower s = ''beta'')
          then ''Medium-Risk'' else ''Normal'')"
proof -
  from assms(2) have "row ''Lifecycle Status'' \<noteq> Some Null"
    by auto
  then have st: "\<And>status. status_is row status =
      Inr (\<exists>s. row ''Lifecycle Status'' = Some (Str s) \<and> lower s = status)"
    by (rule status_is_Str)
  from assms(2) have "\<not> (\<exists>s. row ''Lifecycle Status'' = Some (Str s) \<and> lower s = ''deprecated'')"
    by auto
  moreover from assms(3) have "\<not> vendor_missing row"
    by (auto simp: vendor_missing_iff)
  moreover from assms(1) have "\<not> domain_unclassified row"
    by (auto simp: domain_unclassified_iff)
  ultimately show ?thesis
    by (simp add: flag_risk_def st DEFAULT_RISK_FLAG_def)
qed

theorem flag_risk_never_classified_witness:
  "([''Lifecycle Status'' \<mapsto> Str ''Beta'', ''Vendor'' \<mapsto> Str ''Acme'', ''TRM Domain'' \<mapsto> Null]
      ''TRM Domain'' = Some Null) \<and>
   (\<exists>s. [''Lifecycle Status'' \<mapsto> Str ''Beta'', ''Vendor'' \<mapsto> Str ''Acme'', ''TRM Domain'' \<mapsto> Null]
           ''Lifecycle Status'' = Some (Str s) \<and> lower s \<noteq> ''deprecated'') \<and>
   (\<exists>v. [''Lifecycle Status'' \<mapsto> Str ''Beta'', ''Vendor'' \<mapsto> Str ''Acme'', ''TRM Domain'' \<mapsto> Null]
           ''Vendor'' = Some (Str v) \<and> strip v \<noteq> []) \<and>
   flag_risk [''Lifecycle Status'' \<mapsto> Str ''Beta'', ''Vendor'' \<mapsto> Str ''Acme'', ''TRM Domain'' \<mapsto> Null] =
     Inr ''Medium-Risk''"
proof -
  let ?row = "[''Lifecycle Status'' \<mapsto> Str ''Beta'', ''Vendor'' \<mapsto> Str ''Acme'', ''TRM Domain'' \<mapsto> Null]"
  have lo: "lower ''Beta'' = ''beta''"
    by (simp add: lower_def lower_char_def ascii_uppercase_def ascii_lowercase_def)
  have d: "?row ''TRM Domain'' = None \<or> ?row ''TRM Domain'' = Some Null"
    by simp
  have l: "?row ''Lifecycle Status'' = None \<or>
      (\<exists>s. ?row ''Lifecycle Status'' = Some (Str s) \<and> lower s \<noteq> ''deprecated'')"
    by (simp add: lo)
  have v: "\<exists>v. ?row ''Vendor'' = Some (Str v) \<and> strip v \<noteq> []"
    by (simp add: strip_def is_space_def)
  from flag_risk_never_classified [of ?row, OF d l v] show ?thesis
    using l v by (simp add: lo)
qed

text \<open>
  An active record with the vendor Acme that was never classified, its domain field
  absent or null, is Normal.
\<close>

theorem flag_risk_never_classified_counterexample:
  "flag_risk [''Lifecycle Status'' \<mapsto> Str ''Active'', ''Vendor'' \<mapsto> Str ''Acme''] = Inr ''Normal'' \<and>
   flag_risk [''Lifecycle Status'' \<mapsto> Str ''Active'', ''Vendor'' \<mapsto> Str ''Acme'',
              ''TRM Domain'' \<mapsto> Null] = Inr ''Normal''"
  by (simp add: flag_risk_def status_is_def vendor_missing_def domain_unclassified_def
        DEFAULT_DOMAIN_def DEFAULT_RISK_FLAG_def lower_def lower_char_def ascii_uppercase_def
        ascii_lowercase_def strip_def is_space_def)

section \<open>Claims about the risk metrics\<close>

lemma strings_of_mem: "k \<in> set (strings_of cs) \<longleftrightarrow> Str k \<in> set cs"
  by (induction cs rule: strings_of.induct) auto

lemma map_of_graph:
  "map_of (map (\<lambda>k. (k, f k)) ks) k = (if k \<in> set ks then Some (f k) else None)"
  by (induction ks) auto

lemma map_of_value_counts:
  "map_of (value_counts cs) k =
     (if Str k \<in> set cs then Some (count_list cs (Str k)) else None)"
  by (simp add: value_counts_def map_of_graph strings_of_mem)

lemma distinct_value_counts: "distinct (map fst (value_counts cs))"
  by (simp add: value_counts_def comp_def)

lemma value_counts_Nil: "value_counts [] = []"
  by (simp add: value_counts_def)

lemma value_counts_nonempty: "value_counts cs \<noteq> [] \<Longrightarrow> cs \<noteq> []"
  by (auto simp: value_counts_Nil)

lemma count_list_column:
  "count_list (column df c) (Str k) = length (filter (\<lambda>r. r c = Some (Str k)) (rows df))"
proof -
  have "\<And>r. (cell_at r c = Str k) = (r c = Some (Str k))"
    by (simp add: cell_at_def split: option.splits)
  then show ?thesis
    by (simp add: column_def count_list_eq_length_filter filter_map comp_def eq_commute)
qed

lemma column_mem_count:
  "Str k \<in> set (column df c) \<longleftrightarrow> 0 < length (filter (\<lambda>r. r c = Some (Str k)) (rows df))"
  by (simp add: count_list_column [symmetric] count_list_0_iff zero_less_iff_neq_zero)

lemma percentages_of_positive:
  "0 < n \<Longrightarrow>
   percentages_of ops items n =
     Inr (map (\<lambda>(k, v). (k, round_n ops (mul ops (truediv ops v n) 100) 1)) items)"
  by (induction items) auto

lemma percentages_of_counts:
  "percentages_of ops (value_counts cs) (length cs) =
     Inr (map (\<lambda>(k, v). (k, round_n ops (mul ops (truediv ops v (length cs)) 100) 1))
            (value_counts cs))"
proof (cases cs)
  case Nil
  then show ?thesis by (simp add: value_counts_Nil)
next
  case (Cons c cs')
  then show ?thesis by (simp add: percentages_of_positive)
qed

lemma length_column: "length (column df c) = length (rows df)"
  by (simp add: column_def)

lemma generate_risk_metrics_eq:
  "generate_risk_metrics ops df =
     Inr \<lparr>counts =
            (if ''Risk Flag'' \<in> set (columns df)
             then value_counts (column df ''Risk Flag'') else []),
          percentages =
            map (\<lambda>(level, v).
                   (level, round_n ops (mul ops (truediv ops v (length (rows df))) 100) 1))
              (if ''Risk Flag'' \<in> set (columns df)
               then value_counts (column df ''Risk Flag'') else []),
          deprecated_count =
            (if ''Lifecycle Status'' \<in> set (columns df)
             then length (filter (\<lambda>v. v = Str ''Deprecated'') (column df ''Lifecycle Status''))
             else 0),
          missing_vendor_count =
            (if ''Vendor'' \<in> set (columns df)
             then length (filter (\<lambda>v. isnull v \<or> v = Str []) (column df ''Vendor''))
             else 0),
          unclassified_count =
            (if ''TRM Domain'' \<in> set (columns df)
             then length (filter (\<lambda>v. v = Str DEFAULT_DOMAIN) (column df ''TRM Domain''))
             else 0),
          total_count = length (rows df)\<rparr>"
proof -
  define rc where "rc = (if ''Risk Flag'' \<in> set (columns df)
                         then value_counts (column df ''Risk Flag'') else [])"
  have "percentages_of ops rc (length (rows df)) =
      Inr (map (\<lambda>(level, v).
                  (level, round_n ops (mul ops (truediv ops v (length (rows df))) 100) 1)) rc)"
    using percentages_of_counts [of ops "column df ''Risk Flag''"]
    by (simp add: rc_def length_column)
  then show ?thesis
    unfolding generate_risk_metrics_def Let_def rc_def [symmetric] by simp
qed

text \<open>
  C7. For every record set \<open>generate_risk_metrics\<close> returns metrics (no error, so no
  division by zero): the total is the number of records; the count of a risk level is
  the number of records whose Risk Flag is that level, a level no record has being
  absent; each level's percentage is \<open>round(count / total * 100, 1)\<close> in the
  arithmetic supplied; and for the empty record set the counts and percentages are
  empty, the three named counts are zero and the total is zero.
\<close>

theorem generate_risk_metrics_correct:
  "\<exists>m. generate_risk_metrics ops df = Inr m \<and>
       total_count m = length (rows df) \<and>
       (\<forall>level. map_of (counts m) level =
          (let n = length (filter (\<lambda>r. r ''Risk Flag'' = Some (Str level)) (rows df))
           in if ''Risk Flag'' \<in> set (columns df) \<and> 0 < n then Some n else None)) \<and>
       distinct (map fst (counts m)) \<and>
       percentages m =
         map (\<lambda>(level, v).
                (level, round_n ops (mul ops (truediv ops v (length (rows df))) 100) 1))
           (counts m) \<and>
       (rows df = [] \<longrightarrow>
          m = \<lparr>counts = [], percentages = [], deprecated_count = 0,
               missing_vendor_count = 0, unclassified_count = 0, total_count = 0\<rparr>)"
proof -
  obtain m where g: "generate_risk_metrics ops df = Inr m"
    and m: "m = \<lparr>counts =
            (if ''Risk Flag'' \<in> set (columns df)
             then value_counts (column df ''Risk Flag'') else []),
          percentages =
            map (\<lambda>(level, v).
                   (level, round_n ops (mul ops (truediv ops v (length (rows df))) 100) 1))
              (if ''Risk Flag'' \<in> set (columns df)
               then value_counts (column df ''Risk Flag'') else []),
          deprecated_count =
            (if ''Lifecycle Status'' \<in> set (columns df)
             then length (filter (\<lambda>v. v = Str ''Deprecated'') (column df ''Lifecycle Status''))
             else 0),
          missing_vendor_count =
            (if ''Vendor'' \<in> set (columns df)
             then length (filter (\<lambda>v. isnull v \<or> v = Str []) (column df ''Vendor''))
             else 0),
          unclassified_count =
            (if ''TRM Domain'' \<in> set (columns df)
             then length (filter (\<lambda>v. v = Str DEFAULT_DOMAIN) (column df ''TRM Domain''))
             else 0),
          total_count = length (rows df)\<rparr>"
    using generate_risk_metrics_eq by blast
  have t: "total_count m = length (rows df)"
    by (simp add: m)
  have c: "\<forall>level. map_of (counts m) level =
      (let n = length (filter (\<lambda>r. r ''Risk Flag'' = Some (Str level)) (rows df))
       in if ''Risk Flag'' \<in> set (columns df) \<and> 0 < n then Some n else None)"
    by (simp add: m map_of_value_counts column_mem_count count_list_column Let_def)
  have d: "distinct (map fst (counts m))"
    by (simp add: m distinct_value_counts)
  have q: "percentages m =
      map (\<lambda>(level, v).
             (level, round_n ops (mul ops (truediv ops v (length (rows df))) 100) 1))
        (counts m)"
    by (simp add: m)
  have e: "rows df = [] \<longrightarrow>
      m = \<lparr>counts = [], percentages = [], deprecated_count = 0,
           missing_vendor_count = 0, unclassified_count = 0, total_count = 0\<rparr>"
    by (simp add: m column_def value_counts_Nil)
  from g t c d q e show ?thesis
    by blast
qed

text \<open>
  Three records, two Normal and one High-Risk, and the empty record set.
\<close>

theorem generate_risk_metrics_correct_witness:
  "generate_risk_metrics symbolic_ops
     \<lparr>columns = [''Vendor'', ''Lifecycle Status'', ''TRM Domain'', ''Risk Flag''],
      rows = [[''Vendor'' \<mapsto> Str ''Redis Ltd'', ''Lifecycle Status'' \<mapsto> Str ''Active'',
               ''TRM Domain'' \<mapsto> Str ''Data Management'', ''Risk Flag'' \<mapsto> Str ''Normal''],
              [''Vendor'' \<mapsto> Null, ''Lifecycle Status'' \<mapsto> Str ''Deprecated'',
               ''TRM Domain'' \<mapsto> Str ''Unclassified'', ''Risk Flag'' \<mapsto> Str ''High-Risk''],
              [''Vendor'' \<mapsto> Str ''JetBrains'', ''Lifecycle Status'' \<mapsto> Str ''Active'',
               ''TRM Domain'' \<mapsto> Str ''Development'', ''Risk Flag'' \<mapsto> Str ''Normal'']]\<rparr> =
     Inr \<lparr>counts = [(''High-Risk'', 1), (''Normal'', 2)],
          percentages = [(''High-Risk'', Round (Times (Div 1 3) 100) 1),
                         (''Normal'', Round (Times (Div 2 3) 100) 1)],
          deprecated_count = 1, missing_vendor_count = 1, unclassified_count = 1,
          total_count = 3\<rparr> \<and>
   generate_risk_metrics symbolic_ops \<lparr>columns = [], rows = []\<rparr> =
     Inr \<lparr>counts = [], percentages = [], deprecated_count = 0,
          missing_vendor_count = 0, unclassified_count = 0, total_count = 0\<rparr>"
proof -
  let ?df = "\<lparr>columns = [''Vendor'', ''Lifecycle Status'', ''TRM Domain'', ''Risk Flag''],
      rows = [[''Vendor'' \<mapsto> Str ''Redis Ltd'', ''Lifecycle Status'' \<mapsto> Str ''Active'',
               ''TRM Domain'' \<mapsto> Str ''Data Management'', ''Risk Flag'' \<mapsto> Str ''Normal''],
              [''Vendor'' \<mapsto> Null, ''Lifecycle Status'' \<mapsto> Str ''Deprecated'',
               ''TRM Domain'' \<mapsto> Str ''Unclassified'', ''Risk Flag'' \<mapsto> Str ''High-Risk''],
              [''Vendor'' \<mapsto> Str ''JetBrains'', ''Lifecycle Status'' \<mapsto> Str ''Active'',
               ''TRM Domain'' \<mapsto> Str ''Development'', ''Risk Flag'' \<mapsto> Str ''Normal'']]\<rparr>"
  have 1: "generate_risk_metrics symbolic_ops ?df =
     Inr \<lparr>counts = [(''High-Risk'', 1), (''Normal'', 2)],
          percentages = [(''High-Risk'', Round (Times (Div 1 3) 100) 1),
                         (''Normal'', Round (Times (Div 2 3) 100) 1)],
          deprecated_count = 1, missing_vendor_count = 1, unclassified_count = 1,
          total_count = 3\<rparr>"
    by (simp add: generate_risk_metrics_def value_counts_def column_def cell_at_def
          symbolic_ops_def DEFAULT_DOMAIN_def)
  from generate_risk_metrics_correct [of symbolic_ops "\<lparr>columns = [], rows = []\<rparr>"]
  have 2: "generate_risk_metrics symbolic_ops \<lparr>columns = [], rows = []\<rparr> =
     Inr \<lparr>counts = [], percentages = [], deprecated_count = 0,
          missing_vendor_count = 0, unclassified_count = 0, total_count = 0\<rparr>"
    by auto
  from 1 2 show ?thesis ..
qed

text \<open>
  C9. For every record set in which no vendor is a non-empty string of white space only,
  the missing-vendor count equals the number of records that meet the second rule of
  \<open>flag_risk\<close> as the code has it: the vendor field is present and is null or blank.
  When the frame has no Vendor column, no record meets it and the count is zero.
\<close>

theorem missing_vendor_count_rule:
  assumes "list_all (\<lambda>v. case v of Null \<Rightarrow> True | Str s \<Rightarrow> s = [] \<or> strip s \<noteq> [])
             (column df ''Vendor'')"
  shows "\<exists>m. generate_risk_metrics ops df = Inr m \<and>
             missing_vendor_count m = length (filter vendor_missing (iterrows df))"
proof (cases "''Vendor'' \<in> set (columns df)")
  case False
  then have "\<And>r. \<not> vendor_missing (row_series (columns df) r)"
    by (simp add: vendor_missing_def row_series_def)
  then have "filter vendor_missing (iterrows df) = []"
    by (simp add: iterrows_def)
  with False show ?thesis
    by (simp add: generate_risk_metrics_eq)
next
  case True
  have "\<And>r. r \<in> set (rows df) \<Longrightarrow>
      (isnull (cell_at r ''Vendor'') \<or> cell_at r ''Vendor'' = Str []) =
      vendor_missing (row_series (columns df) r)"
  proof -
    fix r
    assume "r \<in> set (rows df)"
    with assms have "case cell_at r ''Vendor'' of Null \<Rightarrow> True | Str s \<Rightarrow> s = [] \<or> strip s \<noteq> []"
      by (simp add: list_all_iff column_def)
    then show "(isnull (cell_at r ''Vendor'') \<or> cell_at r ''Vendor'' = Str []) =
        vendor_missing (row_series (columns df) r)"
      using True
      by (cases "cell_at r ''Vendor''") (auto simp: vendor_missing_def row_series_def strip_def)
  qed
  then have "filter (\<lambda>r. isnull (cell_at r ''Vendor'') \<or> cell_at r ''Vendor'' = Str []) (rows df) =
      filter (\<lambda>r. vendor_missing (row_series (columns df) r)) (rows df)"
    by (simp cong: filter_cong)
  then have "length (filter (\<lambda>v. isnull v \<or> v = Str []) (column df ''Vendor'')) =
      length (filter vendor_missing (iterrows df))"
    by (simp add: column_def iterrows_def filter_map comp_def)
  with True show ?thesis
    by (simp add: generate_risk_metrics_eq)
qed

theorem missing_vendor_count_rule_witness:
  "list_all (\<lambda>v. case v of Null \<Rightarrow> True | Str s \<Rightarrow> s = [] \<or> strip s \<noteq> [])
     (column \<lparr>columns = [''Vendor''],
              rows = [[''Vendor'' \<mapsto> Str ''Acme''], [''Vendor'' \<mapsto> Null],
                      [''Vendor'' \<mapsto> Str []]]\<rparr> ''Vendor'') \<and>
   length (filter vendor_missing
     (iterrows \<lparr>columns = [''Vendor''],
                rows = [[''Vendor'' \<mapsto> Str ''Acme''], [''Vendor'' \<mapsto> Null],
                        [''Vendor'' \<mapsto> Str []]]\<rparr>)) = 2 \<and>
   map_sum id missing_vendor_count
     (generate_risk_metrics symbolic_ops
        \<lparr>columns = [''Vendor''],
         rows = [[''Vendor'' \<mapsto> Str ''Acme''], [''Vendor'' \<mapsto> Null],
                 [''Vendor'' \<mapsto> Str []]]\<rparr>) = Inr 2"
proof -
  let ?df = "\<lparr>columns = [''Vendor''],
      rows = [[''Vendor'' \<mapsto> Str ''Acme''], [''Vendor'' \<mapsto> Null], [''Vendor'' \<mapsto> Str []]]\<rparr>"
  have h: "list_all (\<lambda>v. case v of Null \<Rightarrow> True | Str s \<Rightarrow> s = [] \<or> strip s \<noteq> [])
      (column ?df ''Vendor'')"
    by (simp add: column_def cell_at_def strip_def is_space_def)
  have n: "length (filter vendor_missing (iterrows ?df)) = 2"
    by (simp add: iterrows_def row_series_def vendor_missing_def cell_at_def strip_def is_space_def)
  from missing_vendor_count_rule [OF h, of symbolic_ops] n
  have "map_sum id missing_vendor_count (generate_risk_metrics symbolic_ops ?df) = Inr 2"
    by auto
  with h n show ?thesis
    by blast
qed

text \<open>
  A frame without a Vendor column: its one record has no vendor, and the count is zero.
\<close>

theorem missing_vendor_count_absent_counterexample:
  "(iterrows \<lparr>columns = [''Product Name''],
               rows = [[''Product Name'' \<mapsto> Str ''Redis'']]\<rparr> ! 0) ''Vendor'' = None \<and>
   map_sum id missing_vendor_count
     (generate_risk_metrics symbolic_ops
        \<lparr>columns = [''Product Name''],
         rows = [[''Product Name'' \<mapsto> Str ''Redis'']]\<rparr>) = Inr 0"
  by (simp add: generate_risk_metrics_eq iterrows_def row_series_def)

text \<open>
  A vendor of two spaces is not counted by \<open>generate_risk_metrics\<close>, although the same
  record meets the second rule of \<open>flag_risk\<close>, which strips the vendor first.
\<close>

lemma missing_vendor_count_blank_vendor:
  "map_sum id missing_vendor_count
     (generate_risk_metrics symbolic_ops
        \<lparr>columns = [''Vendor''], rows = [[''Vendor'' \<mapsto> Str ''  '']]\<rparr>) = Inr 0 \<and>
   vendor_missing (iterrows \<lparr>columns = [''Vendor''], rows = [[''Vendor'' \<mapsto> Str ''  '']]\<rparr> ! 0) \<and>
   flag_risk (iterrows \<lparr>columns = [''Vendor''], rows = [[''Vendor'' \<mapsto> Str ''  '']]\<rparr> ! 0) =
     Inr ''High-Risk''"
  by (simp add: generate_risk_metrics_eq column_def cell_at_def iterrows_def row_series_def
        flag_risk_def status_is_def vendor_missing_def strip_def is_space_def)

section \<open>Claims about running a classification\<close>

lemma at_set_length: "length (rows (at_set df i c v)) = length (rows df)"
  by (simp add: at_set_def Let_def)

lemma at_set_other:
  "c' \<noteq> c \<Longrightarrow> j < length (rows df) \<Longrightarrow> (rows (at_set df i c v) ! j) c' = (rows df ! j) c'"
  by (cases "j = i") (simp_all add: at_set_def Let_def)

lemma at_set_columns:
  "columns (at_set df i c v) = (if c \<in> set (columns df) then columns df else columns df @ [c])"
  by (simp add: at_set_def Let_def)

lemma only_classification_written_refl: "only_classification_written df df"
  by (simp add: only_classification_written_def)

lemma only_classification_written_trans:
  "only_classification_written a b \<Longrightarrow> only_classification_written b c \<Longrightarrow>
   only_classification_written a c"
  by (simp add: only_classification_written_def)

lemma only_classification_written_at_set:
  "c = ''TRM Domain'' \<or> c = ''TRM Subdomain'' \<Longrightarrow>
   only_classification_written df (at_set df i c v)"
  by (auto simp: only_classification_written_def at_set_length at_set_other at_set_columns)

lemma classify_rows_frame:
  "result_df < length h \<Longrightarrow>
   classify_rows api_key service method result_df idx srows h = (h', e) \<Longrightarrow>
   length h' = length h \<and> (\<forall>a. a \<noteq> result_df \<longrightarrow> h' ! a = h ! a) \<and>
   only_classification_written (h ! result_df) (h' ! result_df)"
proof (induction srows arbitrary: idx h)
  case Nil
  then show ?case
    by (simp add: only_classification_written_refl)
next
  case (Cons row rest)
  show ?case
  proof (cases "classify_row api_key (service idx) method row")
    case (Inl err)
    with Cons.prems show ?thesis
      by (simp add: only_classification_written_refl)
  next
    case (Inr p)
    obtain domain subdomain where p: "p = (domain, subdomain)"
      by (cases p)
    let ?df1 = "at_set (at_set (h ! result_df) idx ''TRM Domain'' (Str domain))
                  idx ''TRM Subdomain'' (Str subdomain)"
    let ?h1 = "h[result_df := ?df1]"
    from Cons.prems Inr p
    have run: "classify_rows api_key service method result_df (Suc idx) rest ?h1 = (h', e)"
      by simp
    from Cons.prems(1) have len: "result_df < length ?h1"
      by simp
    from Cons.IH [OF len run]
    have 1: "length h' = length ?h1"
      and 2: "\<forall>a. a \<noteq> result_df \<longrightarrow> h' ! a = ?h1 ! a"
      and 3: "only_classification_written (?h1 ! result_df) (h' ! result_df)"
      by blast+
    have "only_classification_written (h ! result_df) ?df1"
      by (blast intro: only_classification_written_trans only_classification_written_at_set)
    with 3 Cons.prems(1) have "only_classification_written (h ! result_df) (h' ! result_df)"
      by (auto intro: only_classification_written_trans)
    with 1 2 show ?thesis
      by simp
  qed
qed

lemma classify_row_returns:
  assumes "row ''Product Name'' \<noteq> None" and "row ''Description'' \<noteq> None"
  shows "\<exists>p. classify_row api_key reply method row = Inr p"
proof -
  from assms obtain product_name description
    where g: "row ''Product Name'' = Some product_name" "row ''Description'' = Some description"
    by blast
  define hint where "hint = (case row ''Category Hint'' of Some v \<Rightarrow> v | None \<Rightarrow> Str [])"
  obtain p where p: "rule_based_classify description hint = Inr p"
    using rule_based_classify_valid [of description hint] by blast
  obtain q where q: "snd (llm_classify api_key reply product_name description hint) = Inr q"
    using llm_classify_valid [of api_key reply product_name description hint] by blast
  have "classify_row api_key reply method row =
      (if method = ''rule-based'' then Inr p else Inr q)"
    unfolding classify_row_def getitem_def Let_def g hint_def [symmetric]
    by (simp only: option.case sum.case p q)
  then show ?thesis
    by simp
qed

lemma classify_rows_returns:
  "list_all (\<lambda>row. row ''Product Name'' \<noteq> None \<and> row ''Description'' \<noteq> None) srows \<Longrightarrow>
   snd (classify_rows api_key service method result_df idx srows h) = None"
proof (induction srows arbitrary: idx h)
  case Nil
  then show ?case by simp
next
  case (Cons row rest)
  then obtain p where "classify_row api_key (service idx) method row = Inr p"
    using classify_row_returns [of row api_key "service idx" "method"] by auto
  with Cons show ?case
    by (cases p) simp
qed

lemma iterrows_present:
  "c \<in> set (columns df) \<Longrightarrow> list_all (\<lambda>row. row c \<noteq> None) (iterrows df)"
  by (simp add: iterrows_def row_series_def list_all_iff)

text \<open>
  C10. \<open>run_classification\<close> leaves every frame of the caller's store as it was, the
  input frame among them, and allocates one new frame. When it returns, the result is
  that new frame: it has the rows of the input in the same order, every field other than
  \<open>TRM Domain\<close> and \<open>TRM Subdomain\<close> is as in the input, and so are the other
  columns. It returns whenever the input has the columns \<open>Product Name\<close> and
  \<open>Description\<close>.
\<close>

theorem run_classification_frame:
  assumes "df < length h"
  shows "\<exists>h' res. run_classification api_key service h df method = (h', res) \<and>
           length h' = Suc (length h) \<and>
           (\<forall>a < length h. h' ! a = h ! a) \<and>
           (\<forall>result_df. res = Inr result_df \<longrightarrow>
              result_df = length h \<and>
              length (rows (h' ! result_df)) = length (rows (h ! df)) \<and>
              (\<forall>i < length (rows (h ! df)). \<forall>c.
                 c \<noteq> ''TRM Domain'' \<and> c \<noteq> ''TRM Subdomain'' \<longrightarrow>
                 (rows (h' ! result_df) ! i) c = (rows (h ! df) ! i) c) \<and>
              filter (\<lambda>c. c \<noteq> ''TRM Domain'' \<and> c \<noteq> ''TRM Subdomain'') (columns (h' ! result_df)) =
              filter (\<lambda>c. c \<noteq> ''TRM Domain'' \<and> c \<noteq> ''TRM Subdomain'') (columns (h ! df))) \<and>
           (''Product Name'' \<in> set (columns (h ! df)) \<and> ''Description'' \<in> set (columns (h ! df)) \<longrightarrow>
              (\<exists>result_df. res = Inr result_df))"
proof -
  let ?h1 = "h @ [h ! df]"
  let ?r = "length h"
  obtain h2 e where run: "classify_rows api_key service method ?r 0 (iterrows (h ! df)) ?h1 = (h2, e)"
    by (cases "classify_rows api_key service method ?r 0 (iterrows (h ! df)) ?h1")
  define res :: "py_error + nat" where "res = (case e of Some err \<Rightarrow> Inl err | None \<Rightarrow> Inr ?r)"
  from run have rc: "run_classification api_key service h df method = (h2, res)"
    by (simp add: run_classification_def copy_df_def res_def split: option.splits)
  have "?r < length ?h1"
    by simp
  from classify_rows_frame [OF this run]
  have len: "length h2 = Suc (length h)"
    and same: "\<forall>a. a \<noteq> ?r \<longrightarrow> h2 ! a = ?h1 ! a"
    and ocw: "only_classification_written (h ! df) (h2 ! ?r)"
    by simp_all
  from same have old: "\<forall>a < length h. h2 ! a = h ! a"
    by (simp add: nth_append)
  have fr: "\<forall>result_df. res = Inr result_df \<longrightarrow>
      result_df = length h \<and>
      length (rows (h2 ! result_df)) = length (rows (h ! df)) \<and>
      (\<forall>i < length (rows (h ! df)). \<forall>c.
         c \<noteq> ''TRM Domain'' \<and> c \<noteq> ''TRM Subdomain'' \<longrightarrow>
         (rows (h2 ! result_df) ! i) c = (rows (h ! df) ! i) c) \<and>
      filter (\<lambda>c. c \<noteq> ''TRM Domain'' \<and> c \<noteq> ''TRM Subdomain'') (columns (h2 ! result_df)) =
      filter (\<lambda>c. c \<noteq> ''TRM Domain'' \<and> c \<noteq> ''TRM Subdomain'') (columns (h ! df))"
  proof (intro allI impI)
    fix result_df
    assume "res = Inr result_df"
    then have "result_df = length h"
      by (simp add: res_def split: option.splits)
    with ocw show "result_df = length h \<and>
      length (rows (h2 ! result_df)) = length (rows (h ! df)) \<and>
      (\<forall>i < length (rows (h ! df)). \<forall>c.
         c \<noteq> ''TRM Domain'' \<and> c \<noteq> ''TRM Subdomain'' \<longrightarrow>
         (rows (h2 ! result_df) ! i) c = (rows (h ! df) ! i) c) \<and>
      filter (\<lambda>c. c \<noteq> ''TRM Domain'' \<and> c \<noteq> ''TRM Subdomain'') (columns (h2 ! result_df)) =
      filter (\<lambda>c. c \<noteq> ''TRM Domain'' \<and> c \<noteq> ''TRM Subdomain'') (columns (h ! df))"
      by (simp add: only_classification_written_def)
  qed
  have ret: "''Product Name'' \<in> set (columns (h ! df)) \<and> ''Description'' \<in> set (columns (h ! df)) \<longrightarrow>
      (\<exists>result_df. res = Inr result_df)"
  proof
    assume "''Product Name'' \<in> set (columns (h ! df)) \<and> ''Description'' \<in> set (columns (h ! df))"
    then have "list_all (\<lambda>row. row ''Product Name'' \<noteq> None \<and> row ''Description'' \<noteq> None)
        (iterrows (h ! df))"
      using iterrows_present [of "''Product Name''" "h ! df"]
        iterrows_present [of "''Description''" "h ! df"]
      by (simp add: list_all_iff)
    from classify_rows_returns [OF this, of api_key service "method" ?r 0 ?h1] run
    have "e = None"
      by simp
    then show "\<exists>result_df. res = Inr result_df"
      by (simp add: res_def)
  qed
  show ?thesis
    apply (rule exI [of _ h2])
    apply (rule exI [of _ res])
    by (intro conjI rc len old fr ret)
qed

text \<open>
  A store with one frame of two records, classified by the rules: the frame at position
  0 is as before, the result is the new frame at position 1, with the two classification
  columns added and the vendors untouched.
\<close>

theorem run_classification_frame_witness:
  "0 < length [\<lparr>columns = [''Product Name'', ''Description'', ''Vendor''],
                rows = [[''Product Name'' \<mapsto> Str ''PostgreSQL'',
                         ''Description'' \<mapsto> Str ''Relational database'',
                         ''Vendor'' \<mapsto> Str ''PGDG''],
                        [''Product Name'' \<mapsto> Str ''Abacus'',
                         ''Description'' \<mapsto> Str ''A simple calculator'',
                         ''Vendor'' \<mapsto> Null]]\<rparr>] \<and>
   fst (run_classification None (\<lambda>i. Raises [])
          [\<lparr>columns = [''Product Name'', ''Description'', ''Vendor''],
            rows = [[''Product Name'' \<mapsto> Str ''PostgreSQL'',
                     ''Description'' \<mapsto> Str ''Relational database'',
                     ''Vendor'' \<mapsto> Str ''PGDG''],
                    [''Product Name'' \<mapsto> Str ''Abacus'',
                     ''Description'' \<mapsto> Str ''A simple calculator'',
                     ''Vendor'' \<mapsto> Null]]\<rparr>] 0 ''rule-based'') ! 0 =
     \<lparr>columns = [''Product Name'', ''Description'', ''Vendor''],
      rows = [[''Product Name'' \<mapsto> Str ''PostgreSQL'',
               ''Description'' \<mapsto> Str ''Relational database'',
               ''Vendor'' \<mapsto> Str ''PGDG''],
              [''Product Name'' \<mapsto> Str ''Abacus'',
               ''Description'' \<mapsto> Str ''A simple calculator'',
               ''Vendor'' \<mapsto> Null]]\<rparr> \<and>
   snd (run_classification None (\<lambda>i. Raises [])
          [\<lparr>columns = [''Product Name'', ''Description'', ''Vendor''],
            rows = [[''Product Name'' \<mapsto> Str ''PostgreSQL'',
                     ''Description'' \<mapsto> Str ''Relational database'',
                     ''Vendor'' \<mapsto> Str ''PGDG''],
                    [''Product Name'' \<mapsto> Str ''Abacus'',
                     ''Description'' \<mapsto> Str ''A simple calculator'',
                     ''Vendor'' \<mapsto> Null]]\<rparr>] 0 ''rule-based'') = Inr 1 \<and>
   columns (fst (run_classification None (\<lambda>i. Raises [])
          [\<lparr>columns = [''Product Name'', ''Description'', ''Vendor''],
            rows = [[''Product Name'' \<mapsto> Str ''PostgreSQL'',
                     ''Description'' \<mapsto> Str ''Relational database'',
                     ''Vendor'' \<mapsto> Str ''PGDG''],
                    [''Product Name'' \<mapsto> Str ''Abacus'',
                     ''Description'' \<mapsto> Str ''A simple calculator'',
                     ''Vendor'' \<mapsto> Null]]\<rparr>] 0 ''rule-based'') ! 1) =
     [''Product Name'', ''Description'', ''Vendor'', ''TRM Domain'', ''TRM Subdomain''] \<and>
   map (\<lambda>r. map r [''Vendor'', ''TRM Domain'', ''TRM Subdomain''])
     (rows (fst (run_classification None (\<lambda>i. Raises [])
          [\<lparr>columns = [''Product Name'', ''Description'', ''Vendor''],
            rows = [[''Product Name'' \<mapsto> Str ''PostgreSQL'',
                     ''Description'' \<mapsto> Str ''Relational database'',
                     ''Vendor'' \<mapsto> Str ''PGDG''],
                    [''Product Name'' \<mapsto> Str ''Abacus'',
                     ''Description'' \<mapsto> Str ''A simple calculator'',
                     ''Vendor'' \<mapsto> Null]]\<rparr>] 0 ''rule-based'') ! 1)) =
     [[Some (Str ''PGDG''), Some (Str ''Data Management''), Some (Str ''Database Platforms'')],
      [Some Null, Some (Str ''Unclassified''), Some (Str ''Unclassified'')]]"
proof -
  let ?df = "\<lparr>columns = [''Product Name'', ''Description'', ''Vendor''],
      rows = [[''Product Name'' \<mapsto> Str ''PostgreSQL'',
               ''Description'' \<mapsto> Str ''Relational database'',
               ''Vendor'' \<mapsto> Str ''PGDG''],
              [''Product Name'' \<mapsto> Str ''Abacus'',
               ''Description'' \<mapsto> Str ''A simple calculator'',
               ''Vendor'' \<mapsto> Null]]\<rparr>"
  let ?run = "run_classification None (\<lambda>i. Raises []) [?df] 0 ''rule-based''"
  have l: "0 < length [?df]"
    by simp
  have "fst ?run ! 0 = [?df] ! 0"
    using run_classification_frame [OF l, of None "\<lambda>i. Raises []" "''rule-based''"] l
    by (elim exE conjE) (simp only: fst_conv)
  then have old: "fst ?run ! 0 = ?df"
    by (simp only: nth_Cons_0)
  have res: "snd ?run = Inr 1"
    by code_simp
  have cols: "columns (fst ?run ! 1) =
      [''Product Name'', ''Description'', ''Vendor'', ''TRM Domain'', ''TRM Subdomain'']"
    by code_simp
  have cells: "map (\<lambda>r. map r [''Vendor'', ''TRM Domain'', ''TRM Subdomain'']) (rows (fst ?run ! 1)) =
      [[Some (Str ''PGDG''), Some (Str ''Data Management''), Some (Str ''Database Platforms'')],
       [Some Null, Some (Str ''Unclassified''), Some (Str ''Unclassified'')]]"
    by code_simp
  from l old res cols cells show ?thesis
    by (intro conjI)
qed

section \<open>What the loop writes\<close>

lemma at_set_written:
  "i < length (rows df) \<Longrightarrow> (rows (at_set df i c v) ! i) c = Some v"
  by (simp add: at_set_def Let_def)

lemma at_set_other_row:
  "c \<in> set (columns df) \<Longrightarrow> j \<noteq> i \<Longrightarrow> rows (at_set df i c v) ! j = rows df ! j"
  by (simp add: at_set_def Let_def)

lemma at_set_columns_mono:
  "c' \<in> set (columns df) \<Longrightarrow> c' \<in> set (columns (at_set df i c v))"
  by (simp add: at_set_columns)

lemma at_set_columns_new: "c \<in> set (columns (at_set df i c v))"
  by (simp add: at_set_columns)

lemma classify_row_valid:
  assumes "classify_row api_key reply method row = Inr (d, s)"
  shows "is_valid d s"
proof -
  from assms obtain product_name description
    where g: "row ''Product Name'' = Some product_name" "row ''Description'' = Some description"
    by (auto simp: classify_row_def getitem_def split: option.splits)
  define hint where "hint = (case row ''Category Hint'' of Some v \<Rightarrow> v | None \<Rightarrow> Str [])"
  from assms have c: "(if method = ''rule-based'' then rule_based_classify description hint
      else snd (llm_classify api_key reply product_name description hint)) = Inr (d, s)"
    unfolding classify_row_def getitem_def Let_def g hint_def [symmetric]
    by (simp only: option.case sum.case)
  show ?thesis
  proof (cases "method = ''rule-based''")
    case True
    with c rule_based_classify_valid [of description hint] show ?thesis
      by auto
  next
    case False
    with c llm_classify_valid [of api_key reply product_name description hint] show ?thesis
      by auto
  qed
qed

lemma classify_rows_earlier_rows:
  "result_df < length h \<Longrightarrow>
   classify_rows api_key service method result_df idx srows h = (h', e) \<Longrightarrow>
   ''TRM Domain'' \<in> set (columns (h ! result_df)) \<Longrightarrow>
   ''TRM Subdomain'' \<in> set (columns (h ! result_df)) \<Longrightarrow>
   j < idx \<Longrightarrow>
   rows (h' ! result_df) ! j = rows (h ! result_df) ! j"
proof (induction srows arbitrary: idx h)
  case Nil
  then show ?case by simp
next
  case (Cons row rest)
  show ?case
  proof (cases "classify_row api_key (service idx) method row")
    case (Inl err)
    with Cons.prems show ?thesis by simp
  next
    case (Inr p)
    obtain domain subdomain where p: "p = (domain, subdomain)"
      by (cases p)
    let ?df1 = "at_set (at_set (h ! result_df) idx ''TRM Domain'' (Str domain))
                  idx ''TRM Subdomain'' (Str subdomain)"
    let ?h1 = "h[result_df := ?df1]"
    from Cons.prems Inr p
    have run: "classify_rows api_key service method result_df (Suc idx) rest ?h1 = (h', e)"
      by simp
    from Cons.prems(1) have len: "result_df < length ?h1" and at: "?h1 ! result_df = ?df1"
      by simp_all
    have cols: "''TRM Domain'' \<in> set (columns ?df1)" "''TRM Subdomain'' \<in> set (columns ?df1)"
      using Cons.prems(3,4) by (simp_all add: at_set_columns_mono)
    from Cons.prems(5) have "j < Suc idx" and ne: "j \<noteq> idx"
      by simp_all
    with Cons.IH [OF len run] cols at
    have "rows (h' ! result_df) ! j = rows ?df1 ! j"
      by simp
    also have "\<dots> = rows (h ! result_df) ! j"
      using Cons.prems(3,4) ne by (simp add: at_set_other_row at_set_columns_mono)
    finally show ?thesis .
  qed
qed

lemma classify_rows_writes:
  "result_df < length h \<Longrightarrow>
   classify_rows api_key service method result_df idx srows h = (h', None) \<Longrightarrow>
   length (rows (h ! result_df)) = idx + length srows \<Longrightarrow>
   j < length srows \<Longrightarrow>
   \<exists>d s. classify_row api_key (service (idx + j)) method (srows ! j) = Inr (d, s) \<and>
         (rows (h' ! result_df) ! (idx + j)) ''TRM Domain'' = Some (Str d) \<and>
         (rows (h' ! result_df) ! (idx + j)) ''TRM Subdomain'' = Some (Str s)"
proof (induction srows arbitrary: idx h j)
  case Nil
  then show ?case by simp
next
  case (Cons row rest)
  show ?case
  proof (cases "classify_row api_key (service idx) method row")
    case (Inl err)
    with Cons.prems show ?thesis by simp
  next
    case (Inr p)
    obtain domain subdomain where p: "p = (domain, subdomain)"
      by (cases p)
    let ?df0 = "at_set (h ! result_df) idx ''TRM Domain'' (Str domain)"
    let ?df1 = "at_set ?df0 idx ''TRM Subdomain'' (Str subdomain)"
    let ?h1 = "h[result_df := ?df1]"
    from Cons.prems Inr p
    have run: "classify_rows api_key service method result_df (Suc idx) rest ?h1 = (h', None)"
      by simp
    from Cons.prems(1) have len: "result_df < length ?h1" and at: "?h1 ! result_df = ?df1"
      by simp_all
    have n: "length (rows (?h1 ! result_df)) = Suc idx + length rest"
      using Cons.prems(3) at by (simp add: at_set_length)
    show ?thesis
    proof (cases j)
      case 0
      have cols: "''TRM Domain'' \<in> set (columns ?df1)" "''TRM Subdomain'' \<in> set (columns ?df1)"
        by (simp_all add: at_set_columns_mono at_set_columns_new)
      have i: "idx < length (rows (h ! result_df))" "idx < length (rows ?df0)"
        using Cons.prems(3) by (simp_all add: at_set_length)
      have "rows (h' ! result_df) ! idx = rows ?df1 ! idx"
        using classify_rows_earlier_rows [OF len run, of idx] cols at by simp
      moreover have "(rows ?df1 ! idx) ''TRM Subdomain'' = Some (Str subdomain)"
        using i by (simp add: at_set_written)
      moreover have "(rows ?df1 ! idx) ''TRM Domain'' = Some (Str domain)"
        using i by (simp add: at_set_other at_set_written)
      ultimately show ?thesis
        using 0 Inr p by simp
    next
      case (Suc j')
      with Cons.prems(4) have "j' < length rest"
        by simp
      from Cons.IH [OF len run n this] Suc show ?thesis
        by simp
    qed
  qed
qed

text \<open>
  When \<open>run_classification\<close> returns, the row at each position of the result carries the
  pair that the chosen classifier gives for the input row at that position, and the pair
  is valid for the taxonomy.
\<close>

lemma run_classification_writes:
  assumes "run_classification api_key service h df method = (h', Inr result_df)"
    and "i < length (rows (h ! df))"
  shows "\<exists>d s. classify_row api_key (service i) method (iterrows (h ! df) ! i) = Inr (d, s) \<and>
           (rows (h' ! result_df) ! i) ''TRM Domain'' = Some (Str d) \<and>
           (rows (h' ! result_df) ! i) ''TRM Subdomain'' = Some (Str s) \<and>
           is_valid d s"
proof -
  let ?h1 = "h @ [h ! df]"
  let ?r = "length h"
  from assms(1)
  have run: "classify_rows api_key service method ?r 0 (iterrows (h ! df)) ?h1 = (h', None)"
    and r: "result_df = ?r"
    by (auto simp: run_classification_def copy_df_def split: prod.splits option.splits)
  have "?r < length ?h1"
    by simp
  moreover have "length (rows (?h1 ! ?r)) = 0 + length (iterrows (h ! df))"
    by (simp add: iterrows_def)
  moreover from assms(2) have "i < length (iterrows (h ! df))"
    by (simp add: iterrows_def)
  ultimately obtain d s
    where "classify_row api_key (service (0 + i)) method (iterrows (h ! df) ! i) = Inr (d, s)"
      and "(rows (h' ! ?r) ! (0 + i)) ''TRM Domain'' = Some (Str d)"
      and "(rows (h' ! ?r) ! (0 + i)) ''TRM Subdomain'' = Some (Str s)"
    using classify_rows_writes [OF _ run] by blast
  then show ?thesis
    using r classify_row_valid by auto
qed

end
